theory Spec2Isabelle
  imports Complex_Main
begin

section \<open>Data model\<close>

text \<open>
  The live session object \<^verbatim>\<open>{ start, lastActive }\<close> of \<^verbatim>\<open>StorageService.js\<close>. Timestamps are
  the integers returned by \<^verbatim>\<open>Date.now()\<close> (milliseconds since the epoch).
\<close>

record session =
  start :: int
  lastActive :: int

text \<open>One entry \<^verbatim>\<open>{ start, end, duration }\<close> pushed by \<^verbatim>\<open>addSessionDetail\<close>.\<close>

datatype detail = Detail (dstart: int) (dend: int) (duration: int)

text \<open>The two JSON documents: day key to milliseconds, and day key to the list of details.\<close>

type_synonym history = "string \<rightharpoonup> int"
type_synonym sessions = "string \<rightharpoonup> detail list"

text \<open>
  A JavaScript Number: \<^verbatim>\<open>NaN\<close>, a signed infinity (\<open>True\<close> for the negative one), the negative
  zero, or a finite value (\<open>Finite 0\<close> is the positive zero). The model computes no number
  itself: the only ones it handles are the literal \<^verbatim>\<open>8.5\<close> of \<^verbatim>\<open>getGoalHours\<close> and the results
  of \<^verbatim>\<open>parseFloat\<close>, which is a parameter.
\<close>

datatype number = NaN | Infinity bool | NegativeZero | Finite rat

text \<open>
  A slot of the module-level \<^verbatim>\<open>cache\<close> object: \<^verbatim>\<open>undefined\<close> until it is first filled, then the
  cached value (where the cached value may itself be \<^verbatim>\<open>null\<close>, written \<open>None\<close>).
\<close>

datatype 'a slot = Undefined | Cached 'a

record cache =
  TARGET_SSID :: "string option slot"
  RAW_SSID :: "string option slot"
  GOAL_HOURS :: "number slot"
  IS_MANUAL_PAUSED :: "bool slot"
  CURRENT_SESSION :: "session option slot"

text \<open>
  A text stored under one of the JSON-valued keys. \<open>Stringified x\<close> is the text
  \<^verbatim>\<open>JSON.stringify(x)\<close>, on which \<^verbatim>\<open>JSON.parse\<close> gives \<open>x\<close> back; \<open>Corrupt\<close> is any non-empty text
  on which \<^verbatim>\<open>JSON.parse\<close> throws; \<open>EmptyText\<close> is the empty string, which the source's
  \<^verbatim>\<open>json ? ... : ...\<close> tests treat as absent. Well-formed JSON of another shape is outside the model.
\<close>

datatype 'a jsontext = EmptyText | Corrupt | Stringified 'a

text \<open>
  \<^verbatim>\<open>AsyncStorage\<close>, one field for each key the service uses; \<open>None\<close> is a key that is not
  stored (\<^verbatim>\<open>getItem\<close> resolves to \<^verbatim>\<open>null\<close>).
\<close>

record asyncStorage =
  item_TARGET_SSID :: "string option"
  item_RAW_SSID :: "string option"
  item_GOAL_HOURS :: "string option"
  item_IS_MANUAL_PAUSED :: "string option"
  item_CURRENT_SESSION :: "session jsontext option"
  item_HISTORY :: "history jsontext option"
  item_SESSIONS :: "sessions jsontext option"

text \<open>The React state that \<^verbatim>\<open>checkNetworkAndSession\<close> sets (\<open>ui_x\<close> is the state variable \<open>x\<close>).\<close>

record ui =
  ui_isManualStop :: bool
  ui_sessionDuration :: int
  ui_isConnectedToOffice :: bool
  ui_currentSSIDName :: "string option"
  ui_currentSessionStart :: "int option"
  ui_targetSSID :: "string option"
  ui_isOnTargetNetwork :: bool

datatype error = StoreFailure | SyntaxError

datatype op = GetItem string | SetItem string | RemoveItem string

text \<open>
  The whole state the code works on. \<open>isEnding\<close> is \<^verbatim>\<open>StorageService._isEnding\<close>; \<open>clock\<close> is
  what \<^verbatim>\<open>Date.now()\<close> returns. Two fields describe the environment rather than the program:
  \<open>faults\<close> says for each coming \<^verbatim>\<open>AsyncStorage\<close> call whether its promise rejects (an empty
  list: no call fails), and \<open>oplog\<close> records every \<^verbatim>\<open>AsyncStorage\<close> call made, in order.
\<close>

record state =
  cache :: cache
  storage :: asyncStorage
  isEnding :: bool
  clock :: int
  faults :: "bool list"
  oplog :: "op list"
  ui :: ui

section \<open>Asynchronous computations with exceptions\<close>

text \<open>
  An \<^verbatim>\<open>async\<close> function is a state transformer that returns either the thrown error (\<open>Inl\<close>)
  or its value (\<open>Inr\<close>).
\<close>

type_synonym 'a M = "state \<Rightarrow> (error + 'a) \<times> state"

definition ret :: "'a \<Rightarrow> 'a M" where
  "ret x = (\<lambda>st. (Inr x, st))"

definition throw :: "error \<Rightarrow> 'a M" where
  "throw e = (\<lambda>st. (Inl e, st))"

definition andThen :: "'a M \<Rightarrow> ('a \<Rightarrow> 'b M) \<Rightarrow> 'b M" where
  "andThen m f = (\<lambda>st. case m st of (Inl e, st') \<Rightarrow> (Inl e, st') | (Inr x, st') \<Rightarrow> f x st')"

definition try_catch :: "'a M \<Rightarrow> (error \<Rightarrow> 'a M) \<Rightarrow> 'a M" where
  "try_catch m handler = (\<lambda>st. case m st of (Inl e, st') \<Rightarrow> handler e st' | (Inr x, st') \<Rightarrow> (Inr x, st'))"

definition try_finally :: "'a M \<Rightarrow> (state \<Rightarrow> state) \<Rightarrow> 'a M" where
  "try_finally m cleanup = (\<lambda>st. case m st of (r, st') \<Rightarrow> (r, cleanup st'))"

definition modify :: "(state \<Rightarrow> state) \<Rightarrow> unit M" where
  "modify f = (\<lambda>st. (Inr (), f st))"

definition Date_now :: "int M" where
  "Date_now = (\<lambda>st. (Inr (clock st), st))"

text \<open>
  \<^verbatim>\<open>await m\<close>: the awaited computation runs, the caller is suspended, and whatever else the
  event loop has ready runs before the caller resumes. That other work is the parameter
  \<open>h\<close>; sequential execution, with nothing else ready, is \<open>h = id\<close>.
\<close>

type_synonym hook = "state \<Rightarrow> state"

definition await :: "hook \<Rightarrow> 'a M \<Rightarrow> 'a M" where
  "await h m = (\<lambda>st. case m st of (r, st') \<Rightarrow> (r, h st'))"

section \<open>AsyncStorage\<close>

text \<open>
  Each call takes the next flag of \<open>faults\<close> and is logged. A rejected call leaves the stored
  data as it was. A key is given by its name (for the log) and by the field of
  \<open>asyncStorage\<close> that holds it.
\<close>

definition nextFault :: "op \<Rightarrow> state \<Rightarrow> bool \<times> state" where
  "nextFault c st =
     (case faults st of
        [] \<Rightarrow> (False, st\<lparr>oplog := oplog st @ [c]\<rparr>)
      | f # fs \<Rightarrow> (f, st\<lparr>faults := fs, oplog := oplog st @ [c]\<rparr>))"

definition AS_getItem :: "string \<Rightarrow> (asyncStorage \<Rightarrow> 'a option) \<Rightarrow> 'a option M" where
  "AS_getItem key field = (\<lambda>st.
     case nextFault (GetItem key) st of
       (True, st') \<Rightarrow> (Inl StoreFailure, st')
     | (False, st') \<Rightarrow> (Inr (field (storage st')), st'))"

definition AS_setItem ::
  "string \<Rightarrow> (('a option \<Rightarrow> 'a option) \<Rightarrow> asyncStorage \<Rightarrow> asyncStorage) \<Rightarrow> 'a \<Rightarrow> unit M" where
  "AS_setItem key field_update v = (\<lambda>st.
     case nextFault (SetItem key) st of
       (True, st') \<Rightarrow> (Inl StoreFailure, st')
     | (False, st') \<Rightarrow> (Inr (), st'\<lparr>storage := field_update (\<lambda>_. Some v) (storage st')\<rparr>))"

definition AS_removeItem ::
  "string \<Rightarrow> (('a option \<Rightarrow> 'a option) \<Rightarrow> asyncStorage \<Rightarrow> asyncStorage) \<Rightarrow> unit M" where
  "AS_removeItem key field_update = (\<lambda>st.
     case nextFault (RemoveItem key) st of
       (True, st') \<Rightarrow> (Inl StoreFailure, st')
     | (False, st') \<Rightarrow> (Inr (), st'\<lparr>storage := field_update (\<lambda>_. None) (storage st')\<rparr>))"

definition JSON_parse :: "'a jsontext \<Rightarrow> 'a M" where
  "JSON_parse t = (case t of Stringified x \<Rightarrow> ret x | Corrupt \<Rightarrow> throw SyntaxError
                   | EmptyText \<Rightarrow> throw SyntaxError)"

text \<open>JavaScript truthiness of a string-or-null value.\<close>

definition truthy :: "string option \<Rightarrow> bool" where
  "truthy v = (case v of None \<Rightarrow> False | Some s \<Rightarrow> s \<noteq> [])"

text \<open>\<^verbatim>\<open>s.replace(/^"|"$/g, '')\<close>: one leading and one trailing double quote are removed.\<close>

definition stripQuotes :: "string \<Rightarrow> string" where
  "stripQuotes s =
     (let t = (case s of [] \<Rightarrow> [] | c # r \<Rightarrow> if c = CHR 0x22 then r else s)
      in if t \<noteq> [] \<and> last t = CHR 0x22 then butlast t else t)"

section \<open>The calendar\<close>

text \<open>
  The two uses of the \<^verbatim>\<open>moment\<close> library, which is not part of the repository:
  \<open>format_day t\<close> is \<^verbatim>\<open>moment(t).format('YYYY-MM-DD')\<close> and \<open>endOf_day t\<close> is
  \<^verbatim>\<open>moment(t).endOf('day').valueOf()\<close>, both in local time. The operations take them as a
  parameter.
\<close>

record calendar =
  format_day :: "int \<Rightarrow> string"
  endOf_day :: "int \<Rightarrow> int"

section \<open>StorageService\<close>

definition setCache :: "(cache \<Rightarrow> cache) \<Rightarrow> unit M" where
  "setCache f = modify (\<lambda>st. st\<lparr>cache := f (cache st)\<rparr>)"

text \<open>\<^verbatim>\<open>json ? JSON.parse(json) : dflt\<close>\<close>

definition parseOr :: "'a \<Rightarrow> 'a jsontext option \<Rightarrow> 'a M" where
  "parseOr dflt json =
     (case json of None \<Rightarrow> ret dflt | Some EmptyText \<Rightarrow> ret dflt | Some t \<Rightarrow> JSON_parse t)"

subsection \<open>Target SSID\<close>

definition setTargetSSID :: "hook \<Rightarrow> string option \<Rightarrow> string option \<Rightarrow> unit M" where
  "setTargetSSID h name rawSSID =
     try_catch
       (let clear =
              andThen (setCache (\<lambda>c. c\<lparr>TARGET_SSID := Cached None, RAW_SSID := Cached None\<rparr>)) (\<lambda>_.
              andThen (await h (AS_removeItem ''TARGET_SSID'' item_TARGET_SSID_update)) (\<lambda>_.
              await h (AS_removeItem ''RAW_SSID'' item_RAW_SSID_update)))
        in case name of
             None \<Rightarrow> clear
           | Some n \<Rightarrow>
               if n = [] then clear
               else
                 andThen (setCache (\<lambda>c. c\<lparr>TARGET_SSID := Cached (Some n)\<rparr>)) (\<lambda>_.
                 andThen (await h (AS_setItem ''TARGET_SSID'' item_TARGET_SSID_update n)) (\<lambda>_.
                 case rawSSID of
                   None \<Rightarrow> ret ()
                 | Some r \<Rightarrow>
                     if r = [] then ret ()
                     else
                       let cleanSSID = stripQuotes r in
                       andThen (setCache (\<lambda>c. c\<lparr>RAW_SSID := Cached (Some cleanSSID)\<rparr>)) (\<lambda>_.
                       await h (AS_setItem ''RAW_SSID'' item_RAW_SSID_update cleanSSID)))))
       (\<lambda>e. ret ())"

definition getTargetSSID :: "hook \<Rightarrow> string option M" where
  "getTargetSSID h = (\<lambda>st.
     case TARGET_SSID (cache st) of
       Cached v \<Rightarrow> (Inr v, st)
     | Undefined \<Rightarrow>
         try_catch
           (andThen (await h (AS_getItem ''TARGET_SSID'' item_TARGET_SSID)) (\<lambda>val.
            andThen (setCache (\<lambda>c. c\<lparr>TARGET_SSID := Cached val\<rparr>)) (\<lambda>_.
            ret val)))
           (\<lambda>e. ret None) st)"

definition getRawSSID :: "hook \<Rightarrow> string option M" where
  "getRawSSID h = (\<lambda>st.
     case RAW_SSID (cache st) of
       Cached v \<Rightarrow> (Inr v, st)
     | Undefined \<Rightarrow>
         try_catch
           (andThen (await h (AS_getItem ''RAW_SSID'' item_RAW_SSID)) (\<lambda>val.
            andThen (setCache (\<lambda>c. c\<lparr>RAW_SSID := Cached val\<rparr>)) (\<lambda>_.
            ret val)))
           (\<lambda>e. ret None) st)"

definition clearTargetSSID :: "hook \<Rightarrow> unit M" where
  "clearTargetSSID h =
     try_catch
       (andThen (setCache (\<lambda>c. c\<lparr>TARGET_SSID := Cached None, RAW_SSID := Cached None\<rparr>)) (\<lambda>_.
        andThen (await h (AS_removeItem ''TARGET_SSID'' item_TARGET_SSID_update)) (\<lambda>_.
        await h (AS_removeItem ''RAW_SSID'' item_RAW_SSID_update))))
       (\<lambda>e. ret ())"

subsection \<open>Goal hours\<close>

text \<open>
  \<^verbatim>\<open>parseFloat\<close> is a built-in of the language, not code of the repository: \<^verbatim>\<open>getGoalHours\<close>
  takes it as a parameter, a function from the stored text to a Number, and nothing is
  assumed about it.
\<close>

definition getGoalHours :: "hook \<Rightarrow> (string \<Rightarrow> number) \<Rightarrow> number M" where
  "getGoalHours h parseFloat = (\<lambda>st.
     case GOAL_HOURS (cache st) of
       Cached v \<Rightarrow> (Inr v, st)
     | Undefined \<Rightarrow>
         try_catch
           (andThen (await h (AS_getItem ''GOAL_HOURS'' item_GOAL_HOURS)) (\<lambda>val.
            let parsed = (case val of Some v \<Rightarrow> parseFloat v | None \<Rightarrow> Finite (17 / 2)) in
            andThen (setCache (\<lambda>c. c\<lparr>GOAL_HOURS := Cached parsed\<rparr>)) (\<lambda>_.
            ret parsed)))
           (\<lambda>e. ret (Finite (17 / 2))) st)"

subsection \<open>Manual pause\<close>

definition getManualPause :: "hook \<Rightarrow> bool M" where
  "getManualPause h = (\<lambda>st.
     case IS_MANUAL_PAUSED (cache st) of
       Cached v \<Rightarrow> (Inr v, st)
     | Undefined \<Rightarrow>
         try_catch
           (andThen (await h (AS_getItem ''IS_MANUAL_PAUSED'' item_IS_MANUAL_PAUSED)) (\<lambda>val.
            let boolVal = (val = Some ''true'') in
            andThen (setCache (\<lambda>c. c\<lparr>IS_MANUAL_PAUSED := Cached boolVal\<rparr>)) (\<lambda>_.
            ret boolVal)))
           (\<lambda>e. ret False) st)"

definition setManualPause :: "hook \<Rightarrow> bool \<Rightarrow> unit M" where
  "setManualPause h isPaused =
     try_catch
       (andThen (setCache (\<lambda>c. c\<lparr>IS_MANUAL_PAUSED := Cached isPaused\<rparr>)) (\<lambda>_.
        await h (AS_setItem ''IS_MANUAL_PAUSED'' item_IS_MANUAL_PAUSED_update
                   (if isPaused then ''true'' else ''false''))))
       (\<lambda>e. ret ())"

subsection \<open>History and session details\<close>

text \<open>\<^verbatim>\<open>history[dateKey] = (history[dateKey] || 0) + durationMs\<close>\<close>

definition historyAdd :: "history \<Rightarrow> string \<Rightarrow> int \<Rightarrow> history" where
  "historyAdd history dateKey durationMs =
     (let currentTotal = (case history dateKey of None \<Rightarrow> 0 | Some v \<Rightarrow> v)
      in history(dateKey \<mapsto> currentTotal + durationMs))"

text \<open>The push of \<^verbatim>\<open>{ start, end, duration: end - start }\<close> onto the bucket of \<^verbatim>\<open>dateKey\<close>.\<close>

definition detailPush :: "sessions \<Rightarrow> string \<Rightarrow> int \<Rightarrow> int \<Rightarrow> sessions" where
  "detailPush allSessions dateKey startTime endTime =
     (let bucket = (case allSessions dateKey of None \<Rightarrow> [] | Some l \<Rightarrow> l)
      in allSessions(dateKey \<mapsto> bucket @ [Detail startTime endTime (endTime - startTime)]))"

definition addToHistory :: "hook \<Rightarrow> calendar \<Rightarrow> int \<Rightarrow> int \<Rightarrow> unit M" where
  "addToHistory h cal timestamp durationMs =
     try_catch
       (let dateKey = format_day cal timestamp in
        andThen (await h (AS_getItem ''HISTORY'' item_HISTORY)) (\<lambda>historyJson.
        andThen (parseOr Map.empty historyJson) (\<lambda>history.
        await h (AS_setItem ''HISTORY'' item_HISTORY_update
                   (Stringified (historyAdd history dateKey durationMs))))))
       (\<lambda>e. ret ())"

definition getHistory :: "hook \<Rightarrow> history M" where
  "getHistory h =
     try_catch
       (andThen (await h (AS_getItem ''HISTORY'' item_HISTORY)) (\<lambda>json.
        parseOr Map.empty json))
       (\<lambda>e. ret Map.empty)"

definition getDurationForDate :: "hook \<Rightarrow> string \<Rightarrow> int M" where
  "getDurationForDate h dateKey =
     try_catch
       (andThen (await h (AS_getItem ''HISTORY'' item_HISTORY)) (\<lambda>historyJson.
        andThen (parseOr Map.empty historyJson) (\<lambda>history.
        ret (case history dateKey of None \<Rightarrow> 0 | Some v \<Rightarrow> v))))
       (\<lambda>e. ret 0)"

definition getTodayDuration :: "hook \<Rightarrow> calendar \<Rightarrow> int M" where
  "getTodayDuration h cal =
     try_catch
       (andThen Date_now (\<lambda>now.
        let dateKey = format_day cal now in
        andThen (await h (AS_getItem ''HISTORY'' item_HISTORY)) (\<lambda>historyJson.
        andThen (parseOr Map.empty historyJson) (\<lambda>history.
        ret (case history dateKey of None \<Rightarrow> 0 | Some v \<Rightarrow> v)))))
       (\<lambda>e. ret 0)"

definition clearHistory :: "hook \<Rightarrow> unit M" where
  "clearHistory h =
     andThen (await h (AS_removeItem ''HISTORY'' item_HISTORY_update)) (\<lambda>_.
     await h (AS_removeItem ''SESSIONS'' item_SESSIONS_update))"

definition addSessionDetail :: "hook \<Rightarrow> calendar \<Rightarrow> int \<Rightarrow> int \<Rightarrow> unit M" where
  "addSessionDetail h cal startTime endTime =
     try_catch
       (let dateKey = format_day cal startTime in
        andThen (await h (AS_getItem ''SESSIONS'' item_SESSIONS)) (\<lambda>sessionsJson.
        andThen (parseOr Map.empty sessionsJson) (\<lambda>allSessions.
        await h (AS_setItem ''SESSIONS'' item_SESSIONS_update
                   (Stringified (detailPush allSessions dateKey startTime endTime))))))
       (\<lambda>e. ret ())"

definition getSessionsForDate :: "hook \<Rightarrow> string \<Rightarrow> detail list M" where
  "getSessionsForDate h dateKey =
     try_catch
       (andThen (await h (AS_getItem ''SESSIONS'' item_SESSIONS)) (\<lambda>sessionsJson.
        andThen (parseOr Map.empty sessionsJson) (\<lambda>allSessions.
        ret (case allSessions dateKey of None \<Rightarrow> [] | Some l \<Rightarrow> l))))
       (\<lambda>e. ret [])"

definition getTodaySessions :: "hook \<Rightarrow> calendar \<Rightarrow> detail list M" where
  "getTodaySessions h cal =
     try_catch
       (andThen Date_now (\<lambda>now.
        let dateKey = format_day cal now in
        andThen (await h (AS_getItem ''SESSIONS'' item_SESSIONS)) (\<lambda>sessionsJson.
        andThen (parseOr Map.empty sessionsJson) (\<lambda>allSessions.
        ret (case allSessions dateKey of None \<Rightarrow> [] | Some l \<Rightarrow> l)))))
       (\<lambda>e. ret [])"

subsection \<open>Session management\<close>

definition startSession :: "hook \<Rightarrow> session option M" where
  "startSession h =
     try_catch
       (andThen Date_now (\<lambda>now.
        let session = \<lparr>start = now, lastActive = now\<rparr> in
        andThen (setCache (\<lambda>c. c\<lparr>CURRENT_SESSION := Cached (Some session)\<rparr>)) (\<lambda>_.
        andThen (await h (AS_setItem ''CURRENT_SESSION'' item_CURRENT_SESSION_update
                            (Stringified session))) (\<lambda>_.
        ret (Some session)))))
       (\<lambda>e. ret None)"

text \<open>
  The first lines of \<^verbatim>\<open>updateSessionHeartbeat\<close> and of \<^verbatim>\<open>endSession\<close>: the session is the
  cached object when the cache holds one, and otherwise what is parsed from the store (if
  anything). The flag says whether the session is the cached object itself, since the
  assignment to its \<^verbatim>\<open>lastActive\<close> then changes the object in the cache.
\<close>

definition resolveSession :: "hook \<Rightarrow> (session \<times> bool) option M" where
  "resolveSession h = (\<lambda>st.
     case CURRENT_SESSION (cache st) of
       Cached (Some s) \<Rightarrow> (Inr (Some (s, True)), st)
     | _ \<Rightarrow>
         andThen (await h (AS_getItem ''CURRENT_SESSION'' item_CURRENT_SESSION)) (\<lambda>json.
           case json of
             None \<Rightarrow> ret None
           | Some EmptyText \<Rightarrow> ret None
           | Some t \<Rightarrow> andThen (JSON_parse t) (\<lambda>s. ret (Some (s, False)))) st)"

definition updateSessionHeartbeat :: "hook \<Rightarrow> session option M" where
  "updateSessionHeartbeat h =
     try_catch
       (andThen (resolveSession h) (\<lambda>r.
          case r of
            None \<Rightarrow> ret None
          | Some (s, cached) \<Rightarrow>
              andThen Date_now (\<lambda>now.
              let session = s\<lparr>lastActive := now\<rparr> in
              andThen (setCache (\<lambda>c. c\<lparr>CURRENT_SESSION := Cached (Some session)\<rparr>)) (\<lambda>_.
              andThen (await h (AS_setItem ''CURRENT_SESSION'' item_CURRENT_SESSION_update
                                  (Stringified session))) (\<lambda>_.
              ret (Some session))))))
       (\<lambda>e. ret None)"

text \<open>The branch of \<^verbatim>\<open>endSession\<close> for a session that spans midnight.\<close>

definition endSession_split :: "hook \<Rightarrow> calendar \<Rightarrow> session \<Rightarrow> int \<Rightarrow> unit M" where
  "endSession_split h cal session now =
     (let midnight = endOf_day cal (start session);
          duration1 = midnight - start session
      in andThen
           (if 1000 \<le> duration1 then
              andThen (await h (addToHistory h cal (start session) duration1)) (\<lambda>_.
              await h (addSessionDetail h cal (start session) midnight))
            else ret ())
           (\<lambda>_.
              let startOfNewDay = midnight + 1;
                  duration2 = now - startOfNewDay
              in if 1000 \<le> duration2 then
                   andThen (await h (addToHistory h cal now duration2)) (\<lambda>_.
                   await h (addSessionDetail h cal startOfNewDay now))
                 else ret ()))"

text \<open>The branch for a session within one day; \<open>session\<close> already has \<open>lastActive = now\<close>.\<close>

definition endSession_single :: "hook \<Rightarrow> calendar \<Rightarrow> session \<Rightarrow> unit M" where
  "endSession_single h cal session =
     (let duration = lastActive session - start session
      in if 1000 \<le> duration then
           andThen (await h (addToHistory h cal (start session) duration)) (\<lambda>_.
           await h (addSessionDetail h cal (start session) (lastActive session)))
         else ret ())"

text \<open>The body of the \<^verbatim>\<open>try\<close> block of \<^verbatim>\<open>endSession\<close>.\<close>

definition endSession_try :: "hook \<Rightarrow> calendar \<Rightarrow> unit M" where
  "endSession_try h cal =
     andThen (resolveSession h) (\<lambda>r.
       case r of
         None \<Rightarrow> ret ()
       | Some (s, cached) \<Rightarrow>
           andThen Date_now (\<lambda>now.
           let session = s\<lparr>lastActive := now\<rparr> in
           andThen (if cached then setCache (\<lambda>c. c\<lparr>CURRENT_SESSION := Cached (Some session)\<rparr>)
                    else ret ()) (\<lambda>_.
           let startDay = format_day cal (start session);
               endDay = format_day cal now
           in andThen
                (if startDay \<noteq> endDay then endSession_split h cal session now
                 else endSession_single h cal session)
                (\<lambda>_.
                   andThen (setCache (\<lambda>c. c\<lparr>CURRENT_SESSION := Cached None\<rparr>)) (\<lambda>_.
                   await h (AS_removeItem ''CURRENT_SESSION'' item_CURRENT_SESSION_update))))))"

definition endSession :: "hook \<Rightarrow> calendar \<Rightarrow> unit M" where
  "endSession h cal = (\<lambda>st.
     if isEnding st then (Inr (), st)
     else
       try_finally
         (try_catch (endSession_try h cal) (\<lambda>e. ret ()))
         (\<lambda>st'. st'\<lparr>isEnding := False\<rparr>)
         (st\<lparr>isEnding := True\<rparr>))"

definition getCurrentSession :: "hook \<Rightarrow> session option M" where
  "getCurrentSession h = (\<lambda>st.
     case CURRENT_SESSION (cache st) of
       Cached v \<Rightarrow> (Inr v, st)
     | Undefined \<Rightarrow>
         try_catch
           (andThen (await h (AS_getItem ''CURRENT_SESSION'' item_CURRENT_SESSION)) (\<lambda>json.
            andThen (case json of
                       None \<Rightarrow> ret None
                     | Some EmptyText \<Rightarrow> ret None
                     | Some t \<Rightarrow> andThen (JSON_parse t) (\<lambda>s. ret (Some s))) (\<lambda>session.
            andThen (setCache (\<lambda>c. c\<lparr>CURRENT_SESSION := Cached session\<rparr>)) (\<lambda>_.
            ret session))))
           (\<lambda>e. ret None) st)"

section \<open>NetworkService\<close>

text \<open>
  What the service reads from outside the repository: the result of \<^verbatim>\<open>NetInfo.fetch()\<close>
  (\<open>None\<close> when the call rejects), \<^verbatim>\<open>Platform.OS\<close>, and \<^verbatim>\<open>locationServicesEnabled\<close> of
  \<^verbatim>\<open>Location.getProviderStatusAsync()\<close> (\<open>None\<close> when that lookup throws). They are taken as
  constant during one evaluation.
\<close>

datatype platform = Android | IOS | OtherOS

record netinfo =
  net_type :: string
  net_isConnected :: bool
  details_ssid :: "string option"

record netenv =
  NetInfo_fetch :: "netinfo option"
  Platform_OS :: platform
  locationServicesEnabled :: "bool option"

definition getCurrentSSID :: "netenv \<Rightarrow> string option" where
  "getCurrentSSID env =
     (case NetInfo_fetch env of
        None \<Rightarrow> None
      | Some state \<Rightarrow>
          if net_type state \<noteq> ''wifi'' then None
          else if Platform_OS env = Android \<and> locationServicesEnabled env = Some False then None
          else if Platform_OS env = Android \<and> truthy (details_ssid state)
            then map_option stripQuotes (details_ssid state)
          else if Platform_OS env = IOS \<and> truthy (details_ssid state)
            then map_option stripQuotes (details_ssid state)
          else None)"

definition isConnectedToTargetNetwork :: "netenv \<Rightarrow> string option \<Rightarrow> bool" where
  "isConnectedToTargetNetwork env targetSSID =
     (case NetInfo_fetch env of
        None \<Rightarrow> False
      | Some state \<Rightarrow>
          if net_type state \<noteq> ''wifi'' \<or> \<not> net_isConnected state then False
          else if \<not> truthy targetSSID then False
          else if Platform_OS env = Android then
            (let currentSSID = getCurrentSSID env
             in if \<not> truthy currentSSID then False else currentSSID = targetSSID)
          else if Platform_OS env = IOS then
            (let currentSSID = getCurrentSSID env
             in if truthy currentSSID then currentSSID = targetSSID else True)
          else False)"

definition isConnectedToWifi :: "netenv \<Rightarrow> bool" where
  "isConnectedToWifi env =
     (case NetInfo_fetch env of
        None \<Rightarrow> False
      | Some state \<Rightarrow> net_type state = ''wifi'' \<and> net_isConnected state)"

section \<open>The evaluator: checkNetworkAndSession\<close>

definition setUi :: "(ui \<Rightarrow> ui) \<Rightarrow> unit M" where
  "setUi f = modify (\<lambda>st. st\<lparr>ui := f (ui st)\<rparr>)"

text \<open>
  The block headed \<^verbatim>\<open>SSID-SPECIFIC MATCHING\<close>: it yields \<^verbatim>\<open>isOnTargetNetwork\<close> and the
  (possibly reassigned) \<^verbatim>\<open>newSSIDName\<close>.
\<close>

definition ssidMatching ::
  "hook \<Rightarrow> netenv \<Rightarrow> bool \<Rightarrow> string option \<Rightarrow> string option \<Rightarrow> (bool \<times> string option) M" where
  "ssidMatching h env isWifi storedSSID newSSIDName =
     (if isWifi \<and> truthy storedSSID then
        andThen (await h (ret (isConnectedToTargetNetwork env storedSSID))) (\<lambda>onTarget.
          if \<not> onTarget then
            andThen (await h (ret (getCurrentSSID env))) (\<lambda>currentSSID.
              case currentSSID of
                None \<Rightarrow> ret (onTarget, Some ''Non-Office Network'')
              | Some c \<Rightarrow>
                  if c = [] then ret (onTarget, Some ''Non-Office Network'')
                  else ret (onTarget, Some (''Non-Office Network ('' @ c @ '')'')))
          else ret (onTarget, newSSIDName))
      else if isWifi \<and> \<not> truthy storedSSID then ret (True, newSSIDName)
      else ret (False, newSSIDName))"

text \<open>The last lines of the function: the final label and the four state setters.\<close>

definition commitState ::
  "bool \<Rightarrow> string option \<Rightarrow> bool \<Rightarrow> bool \<Rightarrow> bool \<Rightarrow> string option \<Rightarrow> unit M" where
  "commitState isWifi storedTarget isPaused onTarget newIsConnected newSSIDName =
     (let name =
            (if \<not> truthy storedTarget then
               (if isWifi then Some ''Wi-Fi Connected (Not Configured)'' else Some ''Not Connected'')
             else if isWifi \<and> isPaused then Some ''Paused (Manual)''
             else newSSIDName)
      in setUi (\<lambda>u. u\<lparr>ui_isConnectedToOffice := newIsConnected, ui_currentSSIDName := name,
                       ui_targetSSID := storedTarget, ui_isOnTargetNetwork := onTarget\<rparr>))"

text \<open>
  Everything after the zombie check. Two things are left out of the model of the evaluator.
  \<^verbatim>\<open>refreshTotals()\<close> is started without \<^verbatim>\<open>await\<close> where a session has just been ended; it
  only reads the store and fills presentation state that is not part of \<open>ui\<close>. And \<open>session\<close>
  is the value read by \<^verbatim>\<open>getCurrentSession\<close>: in the source it is the cached object itself,
  which matters only if other work changed that object during one of the awaits.
\<close>

definition decide ::
  "hook \<Rightarrow> calendar \<Rightarrow> netenv \<Rightarrow> bool \<Rightarrow> string option \<Rightarrow> string option \<Rightarrow> bool \<Rightarrow>
   session option \<Rightarrow> string option \<Rightarrow> unit M" where
  "decide h cal env isWifi storedTarget storedSSID isPaused session newSSIDName =
     andThen (ssidMatching h env isWifi storedSSID newSSIDName) (\<lambda>(onTarget, newSSIDName1).
       let shouldBeTracking = (onTarget \<and> truthy storedTarget \<and> \<not> isPaused) in
       case session of
         Some s \<Rightarrow>
           if \<not> shouldBeTracking then
             andThen (await h (endSession h cal)) (\<lambda>_.
             setUi (\<lambda>u. u\<lparr>ui_sessionDuration := 0, ui_isConnectedToOffice := False,
                           ui_currentSSIDName :=
                             (if isWifi then
                                (if onTarget then Some ''Wi-Fi Connected (Idle)'' else newSSIDName1)
                              else Some ''Not Connected'')\<rparr>))
           else
             andThen Date_now (\<lambda>today.
             if format_day cal (start s) \<noteq> format_day cal today then
               andThen (await h (endSession h cal)) (\<lambda>_.
               andThen (await h (startSession h)) (\<lambda>_. ret ()))
             else
               andThen (setUi (\<lambda>u. u\<lparr>ui_currentSessionStart := Some (start s)\<rparr>)) (\<lambda>_.
               andThen Date_now (\<lambda>now.
               andThen (setUi (\<lambda>u. u\<lparr>ui_sessionDuration := now - start s\<rparr>)) (\<lambda>_.
               andThen Date_now (\<lambda>now'.
               andThen (if 5000 < now' - lastActive s
                        then andThen (await h (updateSessionHeartbeat h)) (\<lambda>_. ret ())
                        else ret ()) (\<lambda>_.
               commitState isWifi storedTarget isPaused onTarget True storedTarget))))))
       | None \<Rightarrow>
           if shouldBeTracking then
             andThen (await h (startSession h)) (\<lambda>newSession.
             andThen (case newSession of
                        Some n \<Rightarrow> setUi (\<lambda>u. u\<lparr>ui_currentSessionStart := Some (start n)\<rparr>)
                      | None \<Rightarrow> ret ()) (\<lambda>_.
             commitState isWifi storedTarget isPaused onTarget True storedTarget))
           else
             andThen (setUi (\<lambda>u. u\<lparr>ui_sessionDuration := 0, ui_currentSessionStart := None\<rparr>)) (\<lambda>_.
             commitState isWifi storedTarget isPaused onTarget False newSSIDName1))"

text \<open>The zombie branch: the stale session is ended and the idle state is shown.\<close>

definition zombieCleanup :: "hook \<Rightarrow> calendar \<Rightarrow> unit M" where
  "zombieCleanup h cal =
     andThen (await h (endSession h cal)) (\<lambda>_.
     setUi (\<lambda>u. u\<lparr>ui_sessionDuration := 0, ui_isConnectedToOffice := False,
                   ui_currentSSIDName := Some ''Not Connected''\<rparr>))"

definition checkNetworkAndSession :: "hook \<Rightarrow> calendar \<Rightarrow> netenv \<Rightarrow> unit M" where
  "checkNetworkAndSession h cal env =
     try_catch
       (andThen (await h (ret (isConnectedToWifi env))) (\<lambda>isWifi.
        let newSSIDName = (if isWifi then Some ''Wi-Fi Connected'' else Some ''Not Connected'') in
        andThen (await h (getTargetSSID h)) (\<lambda>storedTarget.
        andThen (await h (getRawSSID h)) (\<lambda>storedSSID.
        andThen (await h (getManualPause h)) (\<lambda>paused.
        andThen (if \<not> isWifi \<and> paused
                 then andThen (await h (setManualPause h False)) (\<lambda>_. ret False)
                 else ret paused) (\<lambda>isPaused.
        andThen (setUi (\<lambda>u. u\<lparr>ui_isManualStop := isPaused\<rparr>)) (\<lambda>_.
        andThen (await h (getCurrentSession h)) (\<lambda>session.
        case session of
          None \<Rightarrow> decide h cal env isWifi storedTarget storedSSID isPaused session newSSIDName
        | Some s \<Rightarrow>
            andThen Date_now (\<lambda>now.
            let timeSinceHeartbeat = now - lastActive s in
            if 20 * 60 * 1000 < timeSinceHeartbeat then zombieCleanup h cal
            else decide h cal env isWifi storedTarget storedSSID isPaused session newSSIDName)))))))))
       (\<lambda>e. ret ())"

section \<open>A concrete calendar\<close>

text \<open>
  An instance of the calendar for a zone with a constant offset from UTC (in milliseconds),
  written from the documented meaning of the two \<^verbatim>\<open>moment\<close> calls: the local day of an
  instant, printed as a proleptic Gregorian date with four, two and two digits, and the last
  millisecond of that local day. Daylight-saving changes are outside this instance.
\<close>

definition dayNumber :: "int \<Rightarrow> int \<Rightarrow> int" where
  "dayNumber offset t = (t + offset) div 86400000"

definition civilFromDays :: "int \<Rightarrow> int \<times> int \<times> int" where
  "civilFromDays z0 =
     (let z = z0 + 719468;
          era = z div 146097;
          doe = z - era * 146097;
          yoe = (doe - doe div 1460 + doe div 36524 - doe div 146096) div 365;
          y = yoe + era * 400;
          doy = doe - (365 * yoe + yoe div 4 - yoe div 100);
          mp = (5 * doy + 2) div 153;
          d = doy - (153 * mp + 2) div 5 + 1;
          m = (if mp < 10 then mp + 3 else mp - 9)
      in (if m \<le> 2 then y + 1 else y, m, d))"

definition digitChar :: "int \<Rightarrow> char" where
  "digitChar n = ''0123456789'' ! nat (n mod 10)"

definition formatYMD :: "int \<times> int \<times> int \<Rightarrow> string" where
  "formatYMD ymd =
     (case ymd of (y, m, d) \<Rightarrow>
        [digitChar (y div 1000), digitChar (y div 100), digitChar (y div 10), digitChar y]
        @ ''-'' @ [digitChar (m div 10), digitChar m]
        @ ''-'' @ [digitChar (d div 10), digitChar d])"

definition localCalendar :: "int \<Rightarrow> calendar" where
  "localCalendar offset =
     \<lparr>format_day = (\<lambda>t. formatYMD (civilFromDays (dayNumber offset t))),
      endOf_day = (\<lambda>t. (dayNumber offset t + 1) * 86400000 - 1 - offset)\<rparr>"

section \<open>Initial state\<close>

text \<open>
  The state when the module has just been loaded: every cache slot \<^verbatim>\<open>undefined\<close>, the guard
  not set, nothing stored, the component's state at its initial values.
\<close>

definition initialCache :: cache where
  "initialCache =
     \<lparr>TARGET_SSID = Undefined, RAW_SSID = Undefined, GOAL_HOURS = Undefined,
      IS_MANUAL_PAUSED = Undefined, CURRENT_SESSION = Undefined\<rparr>"

definition emptyStorage :: asyncStorage where
  "emptyStorage =
     \<lparr>item_TARGET_SSID = None, item_RAW_SSID = None, item_GOAL_HOURS = None,
      item_IS_MANUAL_PAUSED = None, item_CURRENT_SESSION = None, item_HISTORY = None,
      item_SESSIONS = None\<rparr>"

definition initialUi :: ui where
  "initialUi =
     \<lparr>ui_isManualStop = False, ui_sessionDuration = 0, ui_isConnectedToOffice = False,
      ui_currentSSIDName = None, ui_currentSessionStart = None,
      ui_targetSSID = None, ui_isOnTargetNetwork = False\<rparr>"

definition initialState :: "int \<Rightarrow> state" where
  "initialState now =
     \<lparr>cache = initialCache, storage = emptyStorage, isEnding = False, clock = now,
      faults = [], oplog = [], ui = initialUi\<rparr>"

section \<open>Observations and example states\<close>

text \<open>
  The next \<^verbatim>\<open>AsyncStorage\<close> call does not fail (the later ones may).
\<close>

definition firstCallSucceeds :: "state \<Rightarrow> bool" where
  "firstCallSucceeds st = (case faults st of [] \<Rightarrow> True | f # _ \<Rightarrow> \<not> f)"

text \<open>A device on Wi-Fi under iOS for which no SSID can be read.\<close>

definition iosWifiOnly :: netenv where
  "iosWifiOnly =
     \<lparr>NetInfo_fetch = Some \<lparr>net_type = ''wifi'', net_isConnected = True, details_ssid = None\<rparr>,
      Platform_OS = IOS, locationServicesEnabled = None\<rparr>"

text \<open>An Android device on the Wi-Fi network \<^verbatim>\<open>"Office"\<close> (reported with its quotes).\<close>

definition androidOffice :: netenv where
  "androidOffice =
     \<lparr>NetInfo_fetch = Some \<lparr>net_type = ''wifi'', net_isConnected = True,
                             details_ssid = Some (CHR 0x22 # ''Office'' @ [CHR 0x22])\<rparr>,
      Platform_OS = Android, locationServicesEnabled = Some True\<rparr>"

text \<open>A fresh process over a store that holds the given items.\<close>

definition stateWithStorage :: "asyncStorage \<Rightarrow> state" where
  "stateWithStorage items = (initialState 0)\<lparr>storage := items\<rparr>"

definition configuredStorage :: asyncStorage where
  "configuredStorage =
     emptyStorage\<lparr>item_TARGET_SSID := Some ''Work'', item_RAW_SSID := Some ''Work-WiFi'',
                   item_GOAL_HOURS := Some ''8.5'', item_IS_MANUAL_PAUSED := Some ''true'',
                   item_CURRENT_SESSION := Some (Stringified \<lparr>start = 1000, lastActive = 2000\<rparr>),
                   item_HISTORY := Some (Stringified [''2024-01-01'' \<mapsto> 5000]),
                   item_SESSIONS := Some (Stringified [''2024-01-01'' \<mapsto> [Detail 0 5000 5000]])\<rparr>"

text \<open>
  The session that \<^verbatim>\<open>endSession\<close> and \<^verbatim>\<open>updateSessionHeartbeat\<close> find when no store call
  fails: the cached one, or else the one stored.
\<close>

definition liveSession :: "state \<Rightarrow> session option" where
  "liveSession st =
     (case CURRENT_SESSION (cache st) of
        Cached (Some s) \<Rightarrow> Some s
      | _ \<Rightarrow> (case item_CURRENT_SESSION (storage st) of
                Some (Stringified s) \<Rightarrow> Some s
              | _ \<Rightarrow> None))"

text \<open>
  The stored History and SessionDetail documents (empty when nothing well-formed is stored),
  and what \<^verbatim>\<open>getDurationForDate\<close> and \<^verbatim>\<open>getSessionsForDate\<close> read from them.
\<close>

definition historyDoc :: "state \<Rightarrow> history" where
  "historyDoc st = (case item_HISTORY (storage st) of Some (Stringified m) \<Rightarrow> m | _ \<Rightarrow> Map.empty)"

definition sessionsDoc :: "state \<Rightarrow> sessions" where
  "sessionsDoc st = (case item_SESSIONS (storage st) of Some (Stringified m) \<Rightarrow> m | _ \<Rightarrow> Map.empty)"

definition durationOn :: "state \<Rightarrow> string \<Rightarrow> int" where
  "durationOn st dateKey = (case historyDoc st dateKey of None \<Rightarrow> 0 | Some v \<Rightarrow> v)"

definition detailsOn :: "state \<Rightarrow> string \<Rightarrow> detail list" where
  "detailsOn st dateKey = (case sessionsDoc st dateKey of None \<Rightarrow> [] | Some l \<Rightarrow> l)"

text \<open>The number of \<^verbatim>\<open>setItem\<close> calls made so far for a key.\<close>

definition storeWrites :: "string \<Rightarrow> state \<Rightarrow> nat" where
  "storeWrites key st = length (filter (\<lambda>c. c = SetItem key) (oplog st))"

text \<open>None of the three JSON-valued keys holds a text that \<^verbatim>\<open>JSON.parse\<close> rejects.\<close>

definition wellFormed :: "state \<Rightarrow> bool" where
  "wellFormed st = (item_HISTORY (storage st) \<noteq> Some Corrupt \<and> item_SESSIONS (storage st) \<noteq> Some Corrupt
      \<and> item_CURRENT_SESSION (storage st) \<noteq> Some Corrupt)"

text \<open>
  What the engine needs of the calendar: an instant is not after the end of its own day, and
  every instant between it and the end of its day has the same day key.
\<close>

definition calendar_ok :: "calendar \<Rightarrow> bool" where
  "calendar_ok cal =
     ((\<forall>t. t \<le> endOf_day cal t)
      \<and> (\<forall>t u. t \<le> u \<and> u \<le> endOf_day cal t \<longrightarrow> format_day cal u = format_day cal t))"

text \<open>A fresh process at time \<open>now\<close> whose cache holds the live session \<open>s\<close>.\<close>

definition stateWithSession :: "int \<Rightarrow> session \<Rightarrow> state" where
  "stateWithSession now s =
     (initialState now)\<lparr>cache := initialCache\<lparr>CURRENT_SESSION := Cached (Some s)\<rparr>\<rparr>"

text \<open>A session started on 2024-01-01 at 23:00:00 UTC.\<close>

definition lateEvening :: session where
  "lateEvening = \<lparr>start = 1704150000000, lastActive = 1704150000000\<rparr>"

text \<open>
  A hook is quiet when it does nothing in a state where the guard of \<^verbatim>\<open>endSession\<close> is
  held; two computations are the same under the guard when, started with the guard held,
  they behave alike and leave the guard held.
\<close>

definition quiet :: "hook \<Rightarrow> bool" where
  "quiet h = (\<forall>st. isEnding st \<longrightarrow> h st = st)"

definition sameUnderGuard :: "'a M \<Rightarrow> 'a M \<Rightarrow> bool" where
  "sameUnderGuard m m' = (\<forall>st. isEnding st \<longrightarrow> m st = m' st \<and> isEnding (snd (m' st)))"

text \<open>
  The session that \<^verbatim>\<open>getCurrentSession\<close> returns when no store call fails: whatever the cache
  slot holds once it is filled (a cached \<^verbatim>\<open>null\<close> included), and otherwise the stored one.
\<close>

definition visibleSession :: "state \<Rightarrow> session option" where
  "visibleSession st =
     (case CURRENT_SESSION (cache st) of
        Cached v \<Rightarrow> v
      | Undefined \<Rightarrow> (case item_CURRENT_SESSION (storage st) of
                        Some (Stringified s) \<Rightarrow> Some s
                      | _ \<Rightarrow> None))"

text \<open>
  The manual-pause flag as \<^verbatim>\<open>getManualPause\<close> sees it set, and the flag cleared everywhere: in
  the cache, in the store and in the component's state.
\<close>

definition pauseSeen :: "state \<Rightarrow> bool" where
  "pauseSeen st =
     (IS_MANUAL_PAUSED (cache st) = Cached True
      \<or> (IS_MANUAL_PAUSED (cache st) = Undefined \<and> item_IS_MANUAL_PAUSED (storage st) = Some ''true''))"

definition pauseCleared :: "state \<Rightarrow> bool" where
  "pauseCleared st =
     (IS_MANUAL_PAUSED (cache st) = Cached False
      \<and> item_IS_MANUAL_PAUSED (storage st) = Some ''false''
      \<and> \<not> ui_isManualStop (ui st))"

text \<open>A device that is connected, but not to Wi-Fi.\<close>

definition onCellular :: netenv where
  "onCellular =
     \<lparr>NetInfo_fetch = Some \<lparr>net_type = ''cellular'', net_isConnected = True, details_ssid = None\<rparr>,
      Platform_OS = Android, locationServicesEnabled = Some True\<rparr>"

text \<open>
  Pre- and postconditions of a computation, and invariants; the result (error or value) is
  visible to the postcondition.
\<close>

definition hoare :: "(state \<Rightarrow> bool) \<Rightarrow> 'a M \<Rightarrow> ((error + 'a) \<Rightarrow> state \<Rightarrow> bool) \<Rightarrow> bool" where
  "hoare P m Q = (\<forall>st. P st \<longrightarrow> Q (fst (m st)) (snd (m st)))"

definition keeps :: "(state \<Rightarrow> bool) \<Rightarrow> 'a M \<Rightarrow> bool" where
  "keeps P m = (\<forall>st. P st \<longrightarrow> P (snd (m st)))"

text \<open>
  What the first steps of an evaluation leave alone, relative to the state \<open>st0\<close> it started
  from (\<open>c\<close> is the content of the cache slot of the session), and the outcome of the zombie
  branch: the session gone from cache and store, the guard free, the idle state shown, and
  the History and SessionDetail documents as \<^verbatim>\<open>endSession\<close> leaves them.
\<close>

definition sessionFrame :: "state \<Rightarrow> session option slot \<Rightarrow> state \<Rightarrow> bool" where
  "sessionFrame st0 c st =
     (CURRENT_SESSION (cache st) = c \<and> \<not> isEnding st \<and> faults st = [] \<and> clock st = clock st0
      \<and> item_CURRENT_SESSION (storage st) = item_CURRENT_SESSION (storage st0)
      \<and> item_HISTORY (storage st) = item_HISTORY (storage st0)
      \<and> item_SESSIONS (storage st) = item_SESSIONS (storage st0))"

definition zombieEnded :: "calendar \<Rightarrow> state \<Rightarrow> state \<Rightarrow> bool" where
  "zombieEnded cal st0 st =
     (CURRENT_SESSION (cache st) = Cached None
      \<and> item_CURRENT_SESSION (storage st) = None
      \<and> \<not> isEnding st
      \<and> ui_sessionDuration (ui st) = 0 \<and> \<not> ui_isConnectedToOffice (ui st)
      \<and> ui_currentSSIDName (ui st) = Some ''Not Connected''
      \<and> item_HISTORY (storage st) = item_HISTORY (storage (snd (endSession id cal st0)))
      \<and> item_SESSIONS (storage st) = item_SESSIONS (storage (snd (endSession id cal st0))))"

section \<open>Basic facts\<close>

lemmas monad_defs = ret_def throw_def andThen_def try_catch_def try_finally_def modify_def
  Date_now_def await_def setCache_def setUi_def

lemma nextFault_none:
  "faults st = [] \<Longrightarrow> nextFault c st = (False, st\<lparr>oplog := oplog st @ [c]\<rparr>)"
  by (simp add: nextFault_def)

section \<open>The cache in front of the store\<close>

text \<open>
  Claim C9. After \<^verbatim>\<open>setTargetSSID("Work", '"Work-WiFi"')\<close>, \<^verbatim>\<open>getTargetSSID()\<close> returns
  \<^verbatim>\<open>"Work"\<close> and \<^verbatim>\<open>getRawSSID()\<close> returns \<^verbatim>\<open>"Work-WiFi"\<close>, the quotes stripped, and both reads
  come from the cache: each leaves the whole state, the log of store calls included, as it
  was, so no store read takes place. This holds from every state in which the first store
  write of the setter does not fail.
\<close>

theorem setTargetSSID_then_get:
  assumes "firstCallSucceeds st"
  shows "getTargetSSID h (snd (setTargetSSID id (Some ''Work'') (Some (CHR 0x22 # ''Work-WiFi'' @ [CHR 0x22])) st))
           = (Inr (Some ''Work''),
              snd (setTargetSSID id (Some ''Work'') (Some (CHR 0x22 # ''Work-WiFi'' @ [CHR 0x22])) st))
       \<and> getRawSSID h (snd (setTargetSSID id (Some ''Work'') (Some (CHR 0x22 # ''Work-WiFi'' @ [CHR 0x22])) st))
           = (Inr (Some ''Work-WiFi''),
              snd (setTargetSSID id (Some ''Work'') (Some (CHR 0x22 # ''Work-WiFi'' @ [CHR 0x22])) st))"
  using assms
  by (simp add: setTargetSSID_def getTargetSSID_def getRawSSID_def monad_defs AS_setItem_def
      nextFault_def firstCallSucceeds_def stripQuotes_def Let_def
      split: list.splits bool.splits)

theorem setTargetSSID_then_get_witness:
  "firstCallSucceeds (initialState 0)
   \<and> fst (getTargetSSID id (snd (setTargetSSID id (Some ''Work'')
             (Some (CHR 0x22 # ''Work-WiFi'' @ [CHR 0x22])) (initialState 0)))) = Inr (Some ''Work'')
   \<and> fst (getRawSSID id (snd (setTargetSSID id (Some ''Work'')
             (Some (CHR 0x22 # ''Work-WiFi'' @ [CHR 0x22])) (initialState 0)))) = Inr (Some ''Work-WiFi'')"
proof -
  have ok: "firstCallSucceeds (initialState 0)"
    by (simp add: firstCallSucceeds_def initialState_def)
  show ?thesis
    using ok setTargetSSID_then_get [OF ok, of id] by simp
qed

section \<open>Clearing the history\<close>

text \<open>
  Claim C10. From every state, whatever store calls fail, \<^verbatim>\<open>clearHistory\<close> leaves the cache
  (current session, target name, raw identifier, goal hours, manual pause) and the guard
  unchanged, and in the store it leaves the current session, the target name, the raw
  identifier, the goal hours and the manual-pause flag unchanged; when no store call fails,
  the History map and the SessionDetail map are removed.
\<close>

theorem clearHistory_frame:
  "cache (snd (clearHistory id st)) = cache st
   \<and> isEnding (snd (clearHistory id st)) = isEnding st
   \<and> item_CURRENT_SESSION (storage (snd (clearHistory id st))) = item_CURRENT_SESSION (storage st)
   \<and> item_TARGET_SSID (storage (snd (clearHistory id st))) = item_TARGET_SSID (storage st)
   \<and> item_RAW_SSID (storage (snd (clearHistory id st))) = item_RAW_SSID (storage st)
   \<and> item_GOAL_HOURS (storage (snd (clearHistory id st))) = item_GOAL_HOURS (storage st)
   \<and> item_IS_MANUAL_PAUSED (storage (snd (clearHistory id st))) = item_IS_MANUAL_PAUSED (storage st)
   \<and> (faults st = [] \<longrightarrow>
        item_HISTORY (storage (snd (clearHistory id st))) = None
      \<and> item_SESSIONS (storage (snd (clearHistory id st))) = None)"
  by (simp add: clearHistory_def monad_defs AS_removeItem_def nextFault_def
      split: list.splits bool.splits prod.splits sum.splits)

theorem clearHistory_frame_witness:
  "faults (stateWithStorage configuredStorage) = []
   \<and> item_HISTORY (storage (stateWithStorage configuredStorage)) \<noteq> None
   \<and> item_HISTORY (storage (snd (clearHistory id (stateWithStorage configuredStorage)))) = None
   \<and> item_SESSIONS (storage (snd (clearHistory id (stateWithStorage configuredStorage)))) = None
   \<and> item_TARGET_SSID (storage (snd (clearHistory id (stateWithStorage configuredStorage)))) = Some ''Work''
   \<and> item_IS_MANUAL_PAUSED (storage (snd (clearHistory id (stateWithStorage configuredStorage)))) = Some ''true''"
  using clearHistory_frame [of "stateWithStorage configuredStorage"]
  by (simp add: stateWithStorage_def configuredStorage_def emptyStorage_def initialState_def)

section \<open>Store failures and malformed values\<close>

text \<open>
  Every operation of the service other than \<^verbatim>\<open>clearHistory\<close> returns a value and never an
  exception, whatever store calls fail and whatever runs at its awaits.
\<close>

lemma catches:
  "\<exists>x. fst (try_catch m (\<lambda>e. ret d) st) = Inr x"
  by (simp add: try_catch_def ret_def split: prod.splits sum.splits)

lemma catches_unit:
  "fst (try_catch m (\<lambda>e. ret ()) st) = Inr ()"
  by (simp add: try_catch_def ret_def split: prod.splits sum.splits)

lemma operations_catch:
  "\<exists>x. fst (setTargetSSID h name rawSSID st) = Inr x"
  "\<exists>x. fst (getTargetSSID h st) = Inr x"
  "\<exists>x. fst (getRawSSID h st) = Inr x"
  "\<exists>x. fst (clearTargetSSID h st) = Inr x"
  "\<exists>x. fst (getGoalHours h parseFloat st) = Inr x"
  "\<exists>x. fst (getManualPause h st) = Inr x"
  "\<exists>x. fst (setManualPause h isPaused st) = Inr x"
  "\<exists>x. fst (startSession h st) = Inr x"
  "\<exists>x. fst (updateSessionHeartbeat h st) = Inr x"
  "\<exists>x. fst (getCurrentSession h st) = Inr x"
  "\<exists>x. fst (addToHistory h cal t d st) = Inr x"
  "\<exists>x. fst (getHistory h st) = Inr x"
  "\<exists>x. fst (getTodayDuration h cal st) = Inr x"
  "\<exists>x. fst (addSessionDetail h cal a b st) = Inr x"
  "\<exists>x. fst (getTodaySessions h cal st) = Inr x"
  "\<exists>x. fst (getSessionsForDate h dateKey st) = Inr x"
  "\<exists>x. fst (getDurationForDate h dateKey st) = Inr x"
  unfolding setTargetSSID_def getTargetSSID_def getRawSSID_def clearTargetSSID_def getGoalHours_def
    getManualPause_def setManualPause_def startSession_def updateSessionHeartbeat_def
    getCurrentSession_def addToHistory_def getHistory_def getTodayDuration_def addSessionDetail_def
    getTodaySessions_def getSessionsForDate_def getDurationForDate_def
  by (simp_all add: catches catches_unit split: slot.splits)

lemma endSession_catches: "fst (endSession h cal st) = Inr ()"
  using catches_unit [of "endSession_try h cal" "st\<lparr>isEnding := True\<rparr>"]
  by (auto simp add: endSession_def try_finally_def split: prod.splits)

text \<open>
  Claim C7, at the input where it fails: with a store whose next call rejects,
  \<^verbatim>\<open>clearHistory\<close> returns the rejection to its caller as an exception (it has no
  \<^verbatim>\<open>try\<close>/\<^verbatim>\<open>catch\<close>), whereas \<^verbatim>\<open>getHistory\<close> on the same state catches it and yields the empty map.
\<close>

theorem clearHistory_surfaces_failure:
  "fst (clearHistory id ((initialState 0)\<lparr>faults := [True]\<rparr>)) = Inl StoreFailure
   \<and> fst (getHistory id ((initialState 0)\<lparr>faults := [True]\<rparr>)) = Inr Map.empty"
  by (simp add: clearHistory_def getHistory_def monad_defs AS_removeItem_def AS_getItem_def
      nextFault_def initialState_def)




section \<open>The network match\<close>

text \<open>
  Claim C5 as stated fails under iOS: on Wi-Fi, with a raw identifier stored and no
  identifier resolved by the network service, the match is true although the resolved
  identifier does not equal the stored one.
\<close>

theorem ios_match_counterexample:
  "getCurrentSSID iosWifiOnly = None
   \<and> fst (ssidMatching id iosWifiOnly (isConnectedToWifi iosWifiOnly) (Some ''Office'') None
            (initialState 0))
       = Inr (True, None)"
  by (simp add: ssidMatching_def isConnectedToTargetNetwork_def isConnectedToWifi_def
      getCurrentSSID_def iosWifiOnly_def truthy_def monad_defs)

text \<open>
  Claim C5, amended. The match computed by an evaluation is: false when not on Wi-Fi; true
  when on Wi-Fi with no raw identifier stored; and when on Wi-Fi with a raw identifier
  stored, under Android true exactly when an identifier is resolved and equals the stored
  one (both quote-stripped, compared exactly), under iOS true exactly when either no
  identifier is resolved or the resolved one equals the stored one, and false on any other
  platform.
\<close>

theorem ssidMatching_value:
  "\<exists>name. fst (ssidMatching h env (isConnectedToWifi env) storedSSID newSSIDName st) =
     Inr ((if isConnectedToWifi env then
             (if truthy storedSSID then
                (case Platform_OS env of
                   Android \<Rightarrow> truthy (getCurrentSSID env) \<and> getCurrentSSID env = storedSSID
                 | IOS \<Rightarrow> (truthy (getCurrentSSID env) \<longrightarrow> getCurrentSSID env = storedSSID)
                 | OtherOS \<Rightarrow> False)
              else True)
           else False), name)"
  by (auto simp add: ssidMatching_def isConnectedToTargetNetwork_def isConnectedToWifi_def
      monad_defs Let_def split: option.splits platform.splits)

theorem ssidMatching_value_witness:
  "isConnectedToWifi androidOffice \<and> getCurrentSSID androidOffice = Some ''Office''
   \<and> (\<exists>name. fst (ssidMatching id androidOffice (isConnectedToWifi androidOffice) (Some ''Office'')
                     None (initialState 0)) = Inr (True, name))"
  using ssidMatching_value [of id androidOffice "Some ''Office''" None "initialState 0"]
  by (simp add: isConnectedToWifi_def getCurrentSSID_def androidOffice_def truthy_def
      stripQuotes_def)

section \<open>Ending a session, call by call\<close>

lemma liveSession_cong:
  "cache a = cache b \<Longrightarrow> storage a = storage b \<Longrightarrow> liveSession a = liveSession b"
  by (simp add: liveSession_def split: slot.splits option.splits)

lemma resolveSession_seq:
  assumes "faults st = []" "item_CURRENT_SESSION (storage st) \<noteq> Some Corrupt"
  shows "\<exists>st'. resolveSession id st = (Inr (map_option (\<lambda>s. (s, \<exists>c. CURRENT_SESSION (cache st) = Cached (Some c))) (liveSession st)), st')
      \<and> cache st' = cache st \<and> storage st' = storage st \<and> isEnding st' = isEnding st \<and> clock st' = clock st
      \<and> faults st' = [] \<and> ui st' = ui st
      \<and> (\<forall>k. storeWrites k st' = storeWrites k st)"
  using assms
  by (auto simp add: resolveSession_def monad_defs AS_getItem_def nextFault_none liveSession_def JSON_parse_def
      storeWrites_def
      split: option.splits jsontext.splits slot.splits)

lemma addToHistory_seq:
  assumes "faults st = []" "item_HISTORY (storage st) \<noteq> Some Corrupt"
  shows "addToHistory id cal t d st =
    (Inr (), st\<lparr>storage := (storage st)\<lparr>item_HISTORY :=
                    Some (Stringified (historyAdd (historyDoc st) (format_day cal t) d))\<rparr>,
                oplog := oplog st @ [GetItem ''HISTORY'', SetItem ''HISTORY'']\<rparr>)"
  using assms
  by (simp add: addToHistory_def monad_defs AS_getItem_def AS_setItem_def nextFault_none parseOr_def
      JSON_parse_def historyDoc_def split: option.splits jsontext.splits)

lemma addSessionDetail_seq:
  assumes "faults st = []" "item_SESSIONS (storage st) \<noteq> Some Corrupt"
  shows "addSessionDetail id cal a b st =
    (Inr (), st\<lparr>storage := (storage st)\<lparr>item_SESSIONS :=
                    Some (Stringified (detailPush (sessionsDoc st) (format_day cal a) a b))\<rparr>,
                oplog := oplog st @ [GetItem ''SESSIONS'', SetItem ''SESSIONS'']\<rparr>)"
  using assms
  by (simp add: addSessionDetail_def monad_defs AS_getItem_def AS_setItem_def nextFault_none parseOr_def
      JSON_parse_def sessionsDoc_def split: option.splits jsontext.splits)

lemma endSession_unguarded:
  "\<not> isEnding st \<Longrightarrow>
   endSession h cal st =
     (case try_catch (endSession_try h cal) (\<lambda>e. ret ()) (st\<lparr>isEnding := True\<rparr>) of
        (r, st') \<Rightarrow> (r, st'\<lparr>isEnding := False\<rparr>))"
  by (simp add: endSession_def try_finally_def)

lemmas observe_defs = durationOn_def detailsOn_def historyDoc_def sessionsDoc_def storeWrites_def
  historyAdd_def detailPush_def


lemma endSession_resolved:
  assumes "\<not> isEnding st" "faults st = []" "wellFormed st" "liveSession st = Some s"
  shows "\<exists>st'. resolveSession id (st\<lparr>isEnding := True\<rparr>) =
            (Inr (Some (s, \<exists>c. CURRENT_SESSION (cache st) = Cached (Some c))), st')
      \<and> cache st' = cache st \<and> storage st' = storage st \<and> clock st' = clock st
      \<and> faults st' = [] \<and> ui st' = ui st
      \<and> (\<forall>k. length (filter (\<lambda>c. c = SetItem k) (oplog st')) = length (filter (\<lambda>c. c = SetItem k) (oplog st)))"
proof -
  let ?st1 = "st\<lparr>isEnding := True\<rparr>"
  have f1: "faults ?st1 = []" "item_CURRENT_SESSION (storage ?st1) \<noteq> Some Corrupt"
    using assms(2,3) by (simp_all add: wellFormed_def)
  have l1: "liveSession ?st1 = Some s" using assms(4) liveSession_cong[of ?st1 st] by simp
  from resolveSession_seq[OF f1] show ?thesis
    by (auto simp add: l1 storeWrites_def)
qed

lemma single_day_effect:
  assumes "\<not> isEnding st" "faults st = []" "wellFormed st" "liveSession st = Some s"
    and "format_day cal (start s) = format_day cal (clock st)"
  shows "(clock st - start s < 1000 \<longrightarrow>
            item_HISTORY (storage (snd (endSession id cal st))) = item_HISTORY (storage st)
          \<and> item_SESSIONS (storage (snd (endSession id cal st))) = item_SESSIONS (storage st)
          \<and> storeWrites ''HISTORY'' (snd (endSession id cal st)) = storeWrites ''HISTORY'' st
          \<and> storeWrites ''SESSIONS'' (snd (endSession id cal st)) = storeWrites ''SESSIONS'' st)
       \<and> (1000 \<le> clock st - start s \<longrightarrow>
            (\<forall>k. durationOn (snd (endSession id cal st)) k =
                   durationOn st k + (if k = format_day cal (start s) then clock st - start s else 0))
          \<and> (\<forall>k. detailsOn (snd (endSession id cal st)) k =
                   detailsOn st k @ (if k = format_day cal (start s)
                                     then [Detail (start s) (clock st) (clock st - start s)] else []))
          \<and> storeWrites ''HISTORY'' (snd (endSession id cal st)) = storeWrites ''HISTORY'' st + 1
          \<and> storeWrites ''SESSIONS'' (snd (endSession id cal st)) = storeWrites ''SESSIONS'' st + 1)"
proof -
  from endSession_resolved[OF assms(1-4)] obtain st' where
      r: "resolveSession id (st\<lparr>isEnding := True\<rparr>) =
            (Inr (Some (s, \<exists>c. CURRENT_SESSION (cache st) = Cached (Some c))), st')"
    and fr: "cache st' = cache st" "storage st' = storage st" "clock st' = clock st" "faults st' = []"
    and w: "\<And>k. length (filter (\<lambda>c. c = SetItem k) (oplog st')) = length (filter (\<lambda>c. c = SetItem k) (oplog st))"
    by blast
  show ?thesis
    using assms(1,3,5) fr w
    by (simp add: endSession_unguarded endSession_try_def endSession_single_def r monad_defs
        addToHistory_seq addSessionDetail_seq AS_removeItem_def nextFault_none wellFormed_def
        observe_defs Let_def)
qed

lemma endSession_split_effect:
  assumes "\<not> isEnding st" "faults st = []" "wellFormed st" "liveSession st = Some s"
    and "format_day cal (start s) \<noteq> format_day cal (clock st)"
  shows "(\<forall>k. durationOn (snd (endSession id cal st)) k =
             durationOn st k
             + (if k = format_day cal (start s) \<and> 1000 \<le> endOf_day cal (start s) - start s
                then endOf_day cal (start s) - start s else 0)
             + (if k = format_day cal (clock st) \<and> 1000 \<le> clock st - (endOf_day cal (start s) + 1)
                then clock st - (endOf_day cal (start s) + 1) else 0))
       \<and> (\<forall>k. detailsOn (snd (endSession id cal st)) k =
             detailsOn st k
             @ (if k = format_day cal (start s) \<and> 1000 \<le> endOf_day cal (start s) - start s
                then [Detail (start s) (endOf_day cal (start s)) (endOf_day cal (start s) - start s)]
                else [])
             @ (if k = format_day cal (endOf_day cal (start s) + 1)
                     \<and> 1000 \<le> clock st - (endOf_day cal (start s) + 1)
                then [Detail (endOf_day cal (start s) + 1) (clock st)
                        (clock st - (endOf_day cal (start s) + 1))]
                else []))
       \<and> storeWrites ''HISTORY'' (snd (endSession id cal st)) =
           storeWrites ''HISTORY'' st
           + (if 1000 \<le> endOf_day cal (start s) - start s then 1 else 0)
           + (if 1000 \<le> clock st - (endOf_day cal (start s) + 1) then 1 else 0)
       \<and> storeWrites ''SESSIONS'' (snd (endSession id cal st)) =
           storeWrites ''SESSIONS'' st
           + (if 1000 \<le> endOf_day cal (start s) - start s then 1 else 0)
           + (if 1000 \<le> clock st - (endOf_day cal (start s) + 1) then 1 else 0)"
proof -
  from endSession_resolved[OF assms(1-4)] obtain st' where
      r: "resolveSession id (st\<lparr>isEnding := True\<rparr>) =
            (Inr (Some (s, \<exists>c. CURRENT_SESSION (cache st) = Cached (Some c))), st')"
    and fr: "cache st' = cache st" "storage st' = storage st" "clock st' = clock st" "faults st' = []"
    and w: "\<And>k. length (filter (\<lambda>c. c = SetItem k) (oplog st')) = length (filter (\<lambda>c. c = SetItem k) (oplog st))"
    by blast
  show ?thesis
    using assms(1,3,5) fr w
    by (simp add: endSession_unguarded endSession_try_def endSession_split_def r monad_defs
        addToHistory_seq addSessionDetail_seq AS_removeItem_def nextFault_none wellFormed_def
        observe_defs Let_def)
qed

lemma localCalendar_ok: "calendar_ok (localCalendar offset)"
proof -
  have a: "t \<le> (dayNumber offset t + 1) * 86400000 - 1 - offset" for t
  proof -
    have "(t + offset) mod 86400000 < 86400000" by simp
    then have "t + offset < ((t + offset) div 86400000 + 1) * 86400000"
      by (simp add: algebra_simps div_mult_mod_eq[of "t + offset" 86400000, symmetric])
    then show ?thesis by (simp add: dayNumber_def)
  qed
  have b: "dayNumber offset u = dayNumber offset t"
    if "t \<le> u" "u \<le> (dayNumber offset t + 1) * 86400000 - 1 - offset" for t u
  proof -
    have lo: "dayNumber offset t * 86400000 \<le> u + offset"
    proof -
      have "dayNumber offset t * 86400000 \<le> t + offset"
        by (simp add: dayNumber_def)
      with that(1) show ?thesis by simp
    qed
    have hi: "u + offset < (dayNumber offset t + 1) * 86400000"
      using that(2) by simp
    have "(u + offset) div 86400000 = dayNumber offset t"
      using lo hi
      by (intro int_div_pos_eq[where r = "u + offset - 86400000 * dayNumber offset t"]) simp_all
    then show ?thesis by (simp add: dayNumber_def[of offset u])
  qed
  have c: "format_day (localCalendar offset) u = format_day (localCalendar offset) t"
    if "t \<le> u" "u \<le> endOf_day (localCalendar offset) t" for t u
    using b[of t u] that by (simp add: localCalendar_def)
  show ?thesis
    unfolding calendar_ok_def using a c by (auto simp add: localCalendar_def)
qed


lemma stateWithSession_simps:
  "isEnding (stateWithSession now s) = False"
  "faults (stateWithSession now s) = []"
  "wellFormed (stateWithSession now s)"
  "liveSession (stateWithSession now s) = Some s"
  "clock (stateWithSession now s) = now"
  "durationOn (stateWithSession now s) k = 0"
  "detailsOn (stateWithSession now s) k = []"
  "storeWrites key (stateWithSession now s) = 0"
  by (simp_all add: stateWithSession_def initialState_def initialCache_def emptyStorage_def
      wellFormed_def liveSession_def observe_defs)

lemma utc_days:
  "format_day (localCalendar 0) 1704150000000 = ''2024-01-01''"
  "endOf_day (localCalendar 0) 1704150000000 = 1704153599999"
  "format_day (localCalendar 0) 1704153600000 = ''2024-01-02''"
  "format_day (localCalendar 0) 1704157200000 = ''2024-01-02''"
  "format_day (localCalendar 0) 1704243600000 = ''2024-01-03''"
  "format_day (localCalendar 0) 1704153000000 = ''2024-01-01''"
  "format_day (localCalendar 0) 1704150000500 = ''2024-01-01''"
  by code_simp+

section \<open>Sessions within one day\<close>

text \<open>
  Claim C2. Take a state where the guard is free, no store call fails and the stored
  documents are well-formed, with a live session whose start and the current time have the
  same day key. If the duration \<open>now - start\<close> (the session's \<open>lastActive\<close> is set to \<open>now\<close>) is
  below 1000 ms, \<^verbatim>\<open>endSession\<close> leaves the stored History and SessionDetail as they were and
  writes neither. If it is at least 1000 ms, the History total of the start day grows by
  exactly that duration and no other day changes, the SessionDetail list of the start day
  gets exactly the one entry from \<open>start\<close> to \<open>now\<close> appended and no other day changes, and
  each of the two documents is written exactly once.
\<close>

theorem endSession_same_day:
  assumes "\<not> isEnding st" "faults st = []" "wellFormed st" "liveSession st = Some s"
    and "format_day cal (start s) = format_day cal (clock st)"
  shows "(clock st - start s < 1000 \<longrightarrow>
            item_HISTORY (storage (snd (endSession id cal st))) = item_HISTORY (storage st)
          \<and> item_SESSIONS (storage (snd (endSession id cal st))) = item_SESSIONS (storage st)
          \<and> storeWrites ''HISTORY'' (snd (endSession id cal st)) = storeWrites ''HISTORY'' st
          \<and> storeWrites ''SESSIONS'' (snd (endSession id cal st)) = storeWrites ''SESSIONS'' st)
       \<and> (1000 \<le> clock st - start s \<longrightarrow>
            (\<forall>k. durationOn (snd (endSession id cal st)) k =
                   durationOn st k + (if k = format_day cal (start s) then clock st - start s else 0))
          \<and> (\<forall>k. detailsOn (snd (endSession id cal st)) k =
                   detailsOn st k @ (if k = format_day cal (start s)
                                     then [Detail (start s) (clock st) (clock st - start s)] else []))
          \<and> storeWrites ''HISTORY'' (snd (endSession id cal st)) = storeWrites ''HISTORY'' st + 1
          \<and> storeWrites ''SESSIONS'' (snd (endSession id cal st)) = storeWrites ''SESSIONS'' st + 1)"
  using single_day_effect [OF assms] .

theorem endSession_same_day_witness:
  "item_HISTORY (storage (snd (endSession id (localCalendar 0)
       (stateWithSession 1704150000500 lateEvening)))) = None
   \<and> storeWrites ''SESSIONS'' (snd (endSession id (localCalendar 0)
       (stateWithSession 1704150000500 lateEvening))) = 0
   \<and> durationOn (snd (endSession id (localCalendar 0)
       (stateWithSession 1704153000000 lateEvening))) ''2024-01-01'' = 3000000
   \<and> detailsOn (snd (endSession id (localCalendar 0)
       (stateWithSession 1704153000000 lateEvening))) ''2024-01-01''
       = [Detail 1704150000000 1704153000000 3000000]
   \<and> storeWrites ''HISTORY'' (snd (endSession id (localCalendar 0)
       (stateWithSession 1704153000000 lateEvening))) = 1"
proof -
  have g: "\<not> isEnding (stateWithSession now lateEvening)" for now
    by (simp add: stateWithSession_simps)
  have short: "format_day (localCalendar 0) (start lateEvening)
       = format_day (localCalendar 0) (clock (stateWithSession 1704150000500 lateEvening))"
    by (simp add: lateEvening_def stateWithSession_simps utc_days)
  have long: "format_day (localCalendar 0) (start lateEvening)
       = format_day (localCalendar 0) (clock (stateWithSession 1704153000000 lateEvening))"
    by (simp add: lateEvening_def stateWithSession_simps utc_days)
  have init: "item_HISTORY (storage (stateWithSession now s)) = None" for now s
    by (simp add: stateWithSession_def initialState_def emptyStorage_def)
  show ?thesis
    using endSession_same_day [OF g stateWithSession_simps(2,3,4) short]
          endSession_same_day [OF g stateWithSession_simps(2,3,4) long]
    by (simp add: lateEvening_def stateWithSession_simps utc_days init)
qed

section \<open>Sessions across midnight\<close>

text \<open>
  Claim C1 as stated fails for a session that spans more than one midnight. For a session
  from 2024-01-01 23:00 to 2024-01-03 01:00 (UTC), the History increment of the second
  segment goes to the end day 2024-01-03, but its SessionDetail entry is filed under
  2024-01-02, the day of its synthetic start, and the end day gets no entry.
\<close>

theorem multi_day_counterexample:
  "format_day (localCalendar 0) (start lateEvening) = ''2024-01-01''
   \<and> format_day (localCalendar 0) (clock (stateWithSession 1704243600000 lateEvening)) = ''2024-01-03''
   \<and> durationOn (snd (endSession id (localCalendar 0) (stateWithSession 1704243600000 lateEvening)))
        ''2024-01-03'' = 90000000
   \<and> detailsOn (snd (endSession id (localCalendar 0) (stateWithSession 1704243600000 lateEvening)))
        ''2024-01-03'' = []
   \<and> detailsOn (snd (endSession id (localCalendar 0) (stateWithSession 1704243600000 lateEvening)))
        ''2024-01-02'' = [Detail 1704153600000 1704243600000 90000000]"
proof -
  have h: "format_day (localCalendar 0) (start lateEvening)
       \<noteq> format_day (localCalendar 0) (clock (stateWithSession 1704243600000 lateEvening))"
    by (simp add: lateEvening_def stateWithSession_simps utc_days)
  have g: "\<not> isEnding (stateWithSession 1704243600000 lateEvening)"
    by (simp add: stateWithSession_simps)
  show ?thesis
    using endSession_split_effect [OF g stateWithSession_simps(2,3,4) h]
    by (simp add: lateEvening_def stateWithSession_simps utc_days)
qed

text \<open>
  Claim C1, amended. Take a calendar that satisfies \<open>calendar_ok\<close> and a state where the
  guard is free, no store call fails and the stored documents are well-formed, with a live
  session whose start is not after the current time and lies on another day. Then
  \<^verbatim>\<open>endSession\<close> splits it into segment A from \<open>start\<close> to \<open>midnight\<close>, the end of the start
  day, and segment B from \<open>midnight + 1\<close> to \<open>now\<close>; both lie inside the session, they do not
  overlap, together they are the whole interval of millisecond instants, and the durations
  add up to \<open>now - start\<close> less the 1 ms between them. Each segment is appended to History and
  SessionDetail exactly when its duration is at least 1000 ms, with one write each. Segment
  A is attributed to the start day in both documents. Segment B is attributed to the end day
  in History; its SessionDetail entry is filed under the day of \<open>midnight + 1\<close>, which is the
  end day whenever \<open>now\<close> is not after the end of that day (a single midnight crossed).
\<close>

theorem endSession_across_midnight:
  assumes "calendar_ok cal" "\<not> isEnding st" "faults st = []" "wellFormed st"
    and "liveSession st = Some s" "start s \<le> clock st"
    and "format_day cal (start s) \<noteq> format_day cal (clock st)"
  shows "let midnight = endOf_day cal (start s); now = clock st;
             duration1 = midnight - start s; duration2 = now - (midnight + 1);
             st' = snd (endSession id cal st)
         in start s \<le> midnight \<and> midnight < now
          \<and> {start s..midnight} \<inter> {midnight + 1..now} = {}
          \<and> {start s..midnight} \<union> {midnight + 1..now} = {start s..now}
          \<and> duration1 + 1 + duration2 = now - start s
          \<and> (\<forall>k. durationOn st' k =
                 durationOn st k
                 + (if k = format_day cal (start s) \<and> 1000 \<le> duration1 then duration1 else 0)
                 + (if k = format_day cal now \<and> 1000 \<le> duration2 then duration2 else 0))
          \<and> (\<forall>k. detailsOn st' k =
                 detailsOn st k
                 @ (if k = format_day cal (start s) \<and> 1000 \<le> duration1
                    then [Detail (start s) midnight duration1] else [])
                 @ (if k = format_day cal (midnight + 1) \<and> 1000 \<le> duration2
                    then [Detail (midnight + 1) now duration2] else []))
          \<and> (now \<le> endOf_day cal (midnight + 1) \<longrightarrow> format_day cal (midnight + 1) = format_day cal now)
          \<and> storeWrites ''HISTORY'' st' =
               storeWrites ''HISTORY'' st + (if 1000 \<le> duration1 then 1 else 0)
               + (if 1000 \<le> duration2 then 1 else 0)
          \<and> storeWrites ''SESSIONS'' st' =
               storeWrites ''SESSIONS'' st + (if 1000 \<le> duration1 then 1 else 0)
               + (if 1000 \<le> duration2 then 1 else 0)"
proof -
  let ?m = "endOf_day cal (start s)"
  have le: "start s \<le> ?m"
    using assms(1) by (simp add: calendar_ok_def)
  have lt: "?m < clock st"
  proof (rule ccontr)
    assume "\<not> ?m < clock st"
    then have "clock st \<le> ?m" by simp
    with assms(1,6) have "format_day cal (clock st) = format_day cal (start s)"
      unfolding calendar_ok_def by blast
    with assms(7) show False by simp
  qed
  have next_day: "clock st \<le> endOf_day cal (?m + 1) \<longrightarrow> format_day cal (?m + 1) = format_day cal (clock st)"
  proof
    assume "clock st \<le> endOf_day cal (?m + 1)"
    moreover have "?m + 1 \<le> clock st" using lt by simp
    ultimately have "format_day cal (clock st) = format_day cal (?m + 1)"
      using assms(1) unfolding calendar_ok_def by blast
    then show "format_day cal (?m + 1) = format_day cal (clock st)" by simp
  qed
  have sets: "{start s..?m} \<inter> {?m + 1..clock st} = {}"
    "{start s..?m} \<union> {?m + 1..clock st} = {start s..clock st}"
    using le lt by auto
  note eff = endSession_split_effect[OF assms(2,3,4,5,7)]
  show ?thesis
    unfolding Let_def using le lt sets next_day eff by simp
qed

theorem endSession_across_midnight_witness:
  "durationOn (snd (endSession id (localCalendar 0) (stateWithSession 1704157200000 lateEvening)))
      ''2024-01-01'' = 3599999
   \<and> durationOn (snd (endSession id (localCalendar 0) (stateWithSession 1704157200000 lateEvening)))
      ''2024-01-02'' = 3600000
   \<and> detailsOn (snd (endSession id (localCalendar 0) (stateWithSession 1704157200000 lateEvening)))
      ''2024-01-01'' = [Detail 1704150000000 1704153599999 3599999]
   \<and> detailsOn (snd (endSession id (localCalendar 0) (stateWithSession 1704157200000 lateEvening)))
      ''2024-01-02'' = [Detail 1704153600000 1704157200000 3600000]"
proof -
  have h: "start lateEvening \<le> clock (stateWithSession 1704157200000 lateEvening)"
    "format_day (localCalendar 0) (start lateEvening)
       \<noteq> format_day (localCalendar 0) (clock (stateWithSession 1704157200000 lateEvening))"
    by (simp_all add: lateEvening_def stateWithSession_simps utc_days)
  have g: "\<not> isEnding (stateWithSession 1704157200000 lateEvening)"
    by (simp add: stateWithSession_simps)
  show ?thesis
    using endSession_across_midnight [OF localCalendar_ok g stateWithSession_simps(2,3,4) h]
    by (simp add: Let_def lateEvening_def stateWithSession_simps utc_days)
qed

section \<open>The reentrancy guard\<close>

lemma sug_ret: "sameUnderGuard (ret x) (ret x)"
  by (simp add: sameUnderGuard_def ret_def)

lemma sug_throw: "sameUnderGuard (throw e) (throw e)"
  by (simp add: sameUnderGuard_def throw_def)

lemma sug_Date_now: "sameUnderGuard Date_now Date_now"
  by (simp add: sameUnderGuard_def Date_now_def)

lemma sug_setCache: "sameUnderGuard (setCache f) (setCache f)"
  by (simp add: sameUnderGuard_def setCache_def modify_def)

lemma sug_andThen:
  assumes "sameUnderGuard m m'" "\<And>x. sameUnderGuard (f x) (f' x)"
  shows "sameUnderGuard (andThen m f) (andThen m' f')"
  unfolding sameUnderGuard_def andThen_def
proof (intro allI impI)
  fix st :: state assume g: "isEnding st"
  with assms(1) have e: "m st = m' st" and g': "isEnding (snd (m' st))"
    by (simp_all add: sameUnderGuard_def)
  show "(case m st of (Inl e, st') \<Rightarrow> (Inl e, st') | (Inr x, st') \<Rightarrow> f x st') =
        (case m' st of (Inl e, st') \<Rightarrow> (Inl e, st') | (Inr x, st') \<Rightarrow> f' x st') \<and>
        isEnding (snd (case m' st of (Inl e, st') \<Rightarrow> (Inl e, st') | (Inr x, st') \<Rightarrow> f' x st'))"
  proof (cases "m' st")
    case (Pair r st')
    with g' have g'': "isEnding st'" by simp
    show ?thesis
    proof (cases r)
      case (Inl e)
      with Pair e g'' show ?thesis by simp
    next
      case (Inr x)
      with Pair e g'' assms(2)[of x] show ?thesis by (simp add: sameUnderGuard_def)
    qed
  qed
qed

lemma sug_try_catch:
  assumes "sameUnderGuard m m'" "\<And>e. sameUnderGuard (f e) (f' e)"
  shows "sameUnderGuard (try_catch m f) (try_catch m' f')"
  unfolding sameUnderGuard_def try_catch_def
proof (intro allI impI)
  fix st :: state assume g: "isEnding st"
  with assms(1) have e: "m st = m' st" and g': "isEnding (snd (m' st))"
    by (simp_all add: sameUnderGuard_def)
  show "(case m st of (Inl e, st') \<Rightarrow> f e st' | (Inr x, st') \<Rightarrow> (Inr x, st')) =
        (case m' st of (Inl e, st') \<Rightarrow> f' e st' | (Inr x, st') \<Rightarrow> (Inr x, st')) \<and>
        isEnding (snd (case m' st of (Inl e, st') \<Rightarrow> f' e st' | (Inr x, st') \<Rightarrow> (Inr x, st')))"
  proof (cases "m' st")
    case (Pair r st')
    with g' have g'': "isEnding st'" by simp
    show ?thesis
    proof (cases r)
      case (Inl e)
      with Pair \<open>m st = m' st\<close> g'' assms(2)[of e] show ?thesis by (simp add: sameUnderGuard_def)
    next
      case (Inr x)
      with Pair e g'' show ?thesis by simp
    qed
  qed
qed

lemma sug_await:
  assumes "quiet h" "sameUnderGuard m m'"
  shows "sameUnderGuard (await h m) (await id m')"
  using assms
  by (auto simp add: sameUnderGuard_def await_def quiet_def split: prod.splits)

lemma sug_getItem: "sameUnderGuard (AS_getItem k f) (AS_getItem k f)"
  by (simp add: sameUnderGuard_def AS_getItem_def nextFault_def split: list.splits bool.splits)

lemma sug_setItem: "sameUnderGuard (AS_setItem k u v) (AS_setItem k u v)"
  by (simp add: sameUnderGuard_def AS_setItem_def nextFault_def split: list.splits bool.splits)

lemma sug_removeItem: "sameUnderGuard (AS_removeItem k u) (AS_removeItem k u)"
  by (simp add: sameUnderGuard_def AS_removeItem_def nextFault_def split: list.splits bool.splits)

lemma sug_JSON_parse: "sameUnderGuard (JSON_parse t) (JSON_parse t)"
  by (simp add: JSON_parse_def sug_ret sug_throw split: jsontext.splits)

lemma sug_parseOr: "sameUnderGuard (parseOr d j) (parseOr d j)"
  by (simp add: parseOr_def sug_ret sug_JSON_parse split: option.splits jsontext.splits)

lemmas sug_rules = sug_ret sug_throw sug_Date_now sug_setCache sug_andThen sug_try_catch sug_await
  sug_getItem sug_setItem sug_removeItem sug_JSON_parse sug_parseOr

lemma sug_addToHistory:
  "quiet h \<Longrightarrow> sameUnderGuard (addToHistory h cal t d) (addToHistory id cal t d)"
  unfolding addToHistory_def Let_def by (intro sug_rules)

lemma sug_addSessionDetail:
  "quiet h \<Longrightarrow> sameUnderGuard (addSessionDetail h cal a b) (addSessionDetail id cal a b)"
  unfolding addSessionDetail_def Let_def by (intro sug_rules)

lemma sug_resolveSession:
  assumes "quiet h"
  shows "sameUnderGuard (resolveSession h) (resolveSession id)"
proof -
  have inner: "sameUnderGuard
      (andThen (await h (AS_getItem ''CURRENT_SESSION'' item_CURRENT_SESSION)) (\<lambda>json.
           case json of
             None \<Rightarrow> ret None
           | Some EmptyText \<Rightarrow> ret None
           | Some t \<Rightarrow> andThen (JSON_parse t) (\<lambda>s. ret (Some (s, False)))))
      (andThen (await id (AS_getItem ''CURRENT_SESSION'' item_CURRENT_SESSION)) (\<lambda>json.
           case json of
             None \<Rightarrow> ret None
           | Some EmptyText \<Rightarrow> ret None
           | Some t \<Rightarrow> andThen (JSON_parse t) (\<lambda>s. ret (Some (s, False)))))"
    using assms
    by (intro sug_andThen sug_await sug_getItem) (auto intro!: sug_rules split: option.splits jsontext.splits)
  show ?thesis
    unfolding sameUnderGuard_def resolveSession_def
    using inner by (auto simp add: sameUnderGuard_def split: slot.splits option.splits)
qed

lemma sug_endSession_try:
  assumes "quiet h"
  shows "sameUnderGuard (endSession_try h cal) (endSession_try id cal)"
  unfolding endSession_try_def endSession_split_def endSession_single_def Let_def
  using assms
  by (intro sug_andThen sug_resolveSession)
     (auto intro!: sug_rules sug_addToHistory sug_addSessionDetail split: option.splits prod.splits)

text \<open>
  Claim C3. (1) An invocation of \<^verbatim>\<open>endSession\<close> that finds the guard held returns at once:
  no exception, and the state (store, cache, log of store calls) exactly as it was.
  (2) An invocation that finds the guard free never raises and leaves the guard free when it
  returns, whatever store calls fail and whatever else runs at its awaits.
  (3) Hence a second invocation is a quiet hook, and (4) an invocation that takes the guard
  and is interleaved at its awaits with a quiet hook (for instance with any number of further
  \<^verbatim>\<open>endSession\<close> invocations) produces exactly the result and state of the undisturbed
  invocation: one set of appends.
\<close>

theorem endSession_overlap:
  "(isEnding st \<longrightarrow> endSession h cal st = (Inr (), st))
   \<and> (\<not> isEnding st \<longrightarrow>
        fst (endSession h cal st) = Inr () \<and> \<not> isEnding (snd (endSession h cal st)))
   \<and> quiet (\<lambda>s. snd (endSession h cal s))
   \<and> (quiet h' \<and> \<not> isEnding st \<longrightarrow> endSession h' cal st = endSession id cal st)"
proof (intro conjI impI)
  assume "isEnding st"
  then show "endSession h cal st = (Inr (), st)" by (simp add: endSession_def)
next
  assume "\<not> isEnding st"
  then show "fst (endSession h cal st) = Inr ()"
    by (simp add: endSession_def try_finally_def try_catch_def ret_def split: prod.splits sum.splits)
next
  assume "\<not> isEnding st"
  then show "\<not> isEnding (snd (endSession h cal st))"
    by (simp add: endSession_def try_finally_def split: prod.splits)
next
  show "quiet (\<lambda>s. snd (endSession h cal s))"
    by (simp add: quiet_def endSession_def)
next
  assume a: "quiet h' \<and> \<not> isEnding st"
  then have "sameUnderGuard (try_catch (endSession_try h' cal) (\<lambda>e. ret ()))
                            (try_catch (endSession_try id cal) (\<lambda>e. ret ()))"
    by (intro sug_try_catch sug_endSession_try sug_ret) simp
  then have "try_catch (endSession_try h' cal) (\<lambda>e. ret ()) (st\<lparr>isEnding := True\<rparr>)
           = try_catch (endSession_try id cal) (\<lambda>e. ret ()) (st\<lparr>isEnding := True\<rparr>)"
    by (simp add: sameUnderGuard_def)
  with a show "endSession h' cal st = endSession id cal st"
    by (simp add: endSession_def try_finally_def)
qed

theorem endSession_overlap_witness:
  "endSession id (localCalendar 0) ((stateWithSession 1704153000000 lateEvening)\<lparr>isEnding := True\<rparr>)
     = (Inr (), (stateWithSession 1704153000000 lateEvening)\<lparr>isEnding := True\<rparr>)
   \<and> \<not> isEnding (snd (endSession id (localCalendar 0)
          ((stateWithSession 1704153000000 lateEvening)\<lparr>faults := [True, True]\<rparr>)))
   \<and> endSession (\<lambda>s. snd (endSession id (localCalendar 0) s)) (localCalendar 0)
        (stateWithSession 1704153000000 lateEvening)
     = endSession id (localCalendar 0) (stateWithSession 1704153000000 lateEvening)
   \<and> detailsOn (snd (endSession (\<lambda>s. snd (endSession id (localCalendar 0) s)) (localCalendar 0)
        (stateWithSession 1704153000000 lateEvening))) ''2024-01-01''
     = [Detail 1704150000000 1704153000000 3000000]"
proof -
  let ?st = "stateWithSession 1704153000000 lateEvening"
  let ?second = "\<lambda>s. snd (endSession id (localCalendar 0) s)"
  have g: "\<not> isEnding ?st"
    by (simp add: stateWithSession_simps)
  have same: "format_day (localCalendar 0) (start lateEvening)
       = format_day (localCalendar 0) (clock ?st)"
    by (simp add: lateEvening_def stateWithSession_simps utc_days)
  have a: "endSession id (localCalendar 0) (?st\<lparr>isEnding := True\<rparr>) = (Inr (), ?st\<lparr>isEnding := True\<rparr>)"
    using endSession_overlap [of "?st\<lparr>isEnding := True\<rparr>" id "localCalendar 0" id] by simp
  have b: "\<not> isEnding (snd (endSession id (localCalendar 0) (?st\<lparr>faults := [True, True]\<rparr>)))"
    using endSession_overlap [of "?st\<lparr>faults := [True, True]\<rparr>" id "localCalendar 0" id] g by simp
  have q: "quiet ?second"
    using endSession_overlap [of ?st id "localCalendar 0" id] by simp
  have c: "endSession ?second (localCalendar 0) ?st = endSession id (localCalendar 0) ?st"
    using endSession_overlap [of ?st id "localCalendar 0" ?second] q g by simp
  have d: "detailsOn (snd (endSession id (localCalendar 0) ?st)) ''2024-01-01''
             = [Detail 1704150000000 1704153000000 3000000]"
    using single_day_effect [OF g stateWithSession_simps(2,3,4) same]
    by (simp add: lateEvening_def stateWithSession_simps utc_days)
  show ?thesis
    using a b c d by simp
qed

section \<open>Reasoning about an evaluation step by step\<close>

lemma keeps_ret: "keeps P (ret x)"
  by (simp add: keeps_def ret_def)

lemma keeps_throw: "keeps P (throw e)"
  by (simp add: keeps_def throw_def)

lemma keeps_Date_now: "keeps P Date_now"
  by (simp add: keeps_def Date_now_def)

lemma keeps_andThen:
  assumes "keeps P m" "\<And>x. keeps P (f x)"
  shows "keeps P (andThen m f)"
  using assms unfolding keeps_def andThen_def
  by (auto split: prod.splits sum.splits)

lemma keeps_try_catch:
  assumes "keeps P m" "\<And>e. keeps P (f e)"
  shows "keeps P (try_catch m f)"
  using assms unfolding keeps_def try_catch_def
  by (auto split: prod.splits sum.splits)

lemma keeps_await: "keeps P m \<Longrightarrow> keeps P (await id m)"
  by (simp add: keeps_def await_def split: prod.splits)

lemma hoare_andThen:
  assumes "hoare P m (\<lambda>r st. r = Inr v \<and> R st)" "hoare R (f v) Q"
  shows "hoare P (andThen m f) Q"
  using assms unfolding hoare_def andThen_def
  by (auto split: prod.splits sum.splits)

lemma hoare_andThen_any:
  assumes "hoare P m (\<lambda>r st. (\<exists>v. r = Inr v) \<and> R st)" "\<And>v. hoare R (f v) Q"
  shows "hoare P (andThen m f) Q"
  using assms unfolding hoare_def andThen_def
  by (auto split: prod.splits sum.splits)

lemma hoare_try_catch_keeps:
  assumes "hoare P m (\<lambda>r. Q)" "\<And>e. keeps Q (f e)"
  shows "hoare P (try_catch m f) (\<lambda>r. Q)"
  using assms unfolding hoare_def try_catch_def keeps_def
  by (auto split: prod.splits sum.splits)

lemma hoare_await: "hoare P m Q \<Longrightarrow> hoare P (await id m) Q"
  by (simp add: hoare_def await_def split: prod.splits)

lemma hoare_keeps: "keeps P m \<Longrightarrow> hoare P m (\<lambda>r. P)"
  by (simp add: hoare_def keeps_def)

lemmas keeps_rules = keeps_ret keeps_throw keeps_Date_now keeps_andThen keeps_try_catch keeps_await

section \<open>Auto-unpause\<close>

lemma pc_getItem: "keeps pauseCleared (AS_getItem k f)"
  by (simp add: keeps_def AS_getItem_def nextFault_def pauseCleared_def split: list.splits bool.splits)

lemma pc_setItem:
  "keeps pauseCleared (AS_setItem k item_HISTORY_update v)"
  "keeps pauseCleared (AS_setItem k item_SESSIONS_update w)"
  "keeps pauseCleared (AS_setItem k item_CURRENT_SESSION_update x)"
  by (simp_all add: keeps_def AS_setItem_def nextFault_def pauseCleared_def split: list.splits bool.splits)

lemma pc_removeItem:
  "keeps pauseCleared (AS_removeItem k item_CURRENT_SESSION_update)"
  by (simp_all add: keeps_def AS_removeItem_def nextFault_def pauseCleared_def split: list.splits bool.splits)

lemma pc_setCache_session: "keeps pauseCleared (setCache (\<lambda>c. c\<lparr>CURRENT_SESSION := v\<rparr>))"
  by (simp add: keeps_def setCache_def modify_def pauseCleared_def)

lemma pc_setUi:
  "(\<And>u. ui_isManualStop (f u) = ui_isManualStop u) \<Longrightarrow> keeps pauseCleared (setUi f)"
  by (simp add: keeps_def setUi_def modify_def pauseCleared_def)

lemma pc_JSON_parse: "keeps pauseCleared (JSON_parse t)"
  by (simp add: JSON_parse_def keeps_rules split: jsontext.splits)

lemma pc_parseOr: "keeps pauseCleared (parseOr d j)"
  by (simp add: parseOr_def keeps_rules pc_JSON_parse split: option.splits jsontext.splits)

lemmas pc_rules = keeps_rules pc_getItem pc_setItem pc_removeItem pc_setCache_session pc_JSON_parse pc_parseOr

lemma pc_addToHistory: "keeps pauseCleared (addToHistory id cal t d)"
  unfolding addToHistory_def Let_def by (intro pc_rules)

lemma pc_addSessionDetail: "keeps pauseCleared (addSessionDetail id cal a b)"
  unfolding addSessionDetail_def Let_def by (intro pc_rules)

lemma keepsI: "(\<And>st. P st \<Longrightarrow> P (snd (f st))) \<Longrightarrow> keeps P f"
  by (simp add: keeps_def)

lemma keepsD: "keeps P m \<Longrightarrow> P st \<Longrightarrow> P (snd (m st))"
  by (simp add: keeps_def)

lemma pc_resolveSession: "keeps pauseCleared (resolveSession id)"
proof (rule keepsI)
  fix st :: state
  assume P: "pauseCleared st"
  show "pauseCleared (snd (resolveSession id st))"
  proof (cases "\<exists>s. CURRENT_SESSION (cache st) = Cached (Some s)")
    case True
    then show ?thesis using P by (auto simp add: resolveSession_def)
  next
    case False
    let ?m = "andThen (await id (AS_getItem ''CURRENT_SESSION'' item_CURRENT_SESSION)) (\<lambda>json.
           case json of
             None \<Rightarrow> ret None
           | Some EmptyText \<Rightarrow> ret None
           | Some t \<Rightarrow> andThen (JSON_parse t) (\<lambda>s. ret (Some (s, False))))"
    from False have e: "resolveSession id st = ?m st"
      by (simp add: resolveSession_def split: slot.splits option.splits)
    have "keeps pauseCleared ?m"
      by (intro keeps_andThen keeps_await pc_getItem)
         (simp add: pc_rules split: option.splits jsontext.splits)
    from keepsD[OF this P] show ?thesis by (simp only: e)
  qed
qed

lemma pc_endSession_try: "keeps pauseCleared (endSession_try id cal)"
  unfolding endSession_try_def endSession_split_def endSession_single_def Let_def
  by (intro keeps_andThen pc_resolveSession)
     (auto intro!: pc_rules pc_addToHistory pc_addSessionDetail split: option.splits prod.splits)

lemma pc_endSession: "keeps pauseCleared (endSession id cal)"
proof (rule keepsI)
  fix st :: state
  assume P: "pauseCleared st"
  have k: "keeps pauseCleared (try_catch (endSession_try id cal) (\<lambda>e. ret ()))"
    by (intro keeps_try_catch pc_endSession_try keeps_ret)
  have P1: "pauseCleared (st\<lparr>isEnding := True\<rparr>)"
    using P by (simp add: pauseCleared_def)
  have "pauseCleared (snd (try_catch (endSession_try id cal) (\<lambda>e. ret ()) (st\<lparr>isEnding := True\<rparr>)))"
    by (rule keepsD[OF k P1])
  then show "pauseCleared (snd (endSession id cal st))"
    using P by (auto simp add: endSession_def try_finally_def pauseCleared_def split: prod.splits)
qed

lemma pc_startSession: "keeps pauseCleared (startSession id)"
  unfolding startSession_def Let_def by (intro pc_rules)

lemma pc_updateSessionHeartbeat: "keeps pauseCleared (updateSessionHeartbeat id)"
  unfolding updateSessionHeartbeat_def Let_def
  by (intro keeps_try_catch keeps_andThen pc_resolveSession)
     (auto intro!: pc_rules split: option.splits prod.splits)

lemma pc_getCurrentSession: "keeps pauseCleared (getCurrentSession id)"
proof (rule keepsI)
  fix st :: state
  assume P: "pauseCleared st"
  show "pauseCleared (snd (getCurrentSession id st))"
  proof (cases "CURRENT_SESSION (cache st)")
    case (Cached v)
    then show ?thesis using P by (simp add: getCurrentSession_def)
  next
    case Undefined
    let ?m = "try_catch
           (andThen (await id (AS_getItem ''CURRENT_SESSION'' item_CURRENT_SESSION)) (\<lambda>json.
            andThen (case json of
                       None \<Rightarrow> ret None
                     | Some EmptyText \<Rightarrow> ret None
                     | Some t \<Rightarrow> andThen (JSON_parse t) (\<lambda>s. ret (Some s))) (\<lambda>session.
            andThen (setCache (\<lambda>c. c\<lparr>CURRENT_SESSION := Cached session\<rparr>)) (\<lambda>_.
            ret session))))
           (\<lambda>e. ret None)"
    from Undefined have e: "getCurrentSession id st = ?m st"
      by (simp add: getCurrentSession_def)
    have "keeps pauseCleared ?m"
      by (intro keeps_try_catch keeps_andThen keeps_await pc_getItem)
         (simp_all add: pc_rules split: option.splits jsontext.splits)
    from keepsD[OF this P] show ?thesis by (simp only: e)
  qed
qed

lemma pc_ssidMatching: "keeps pauseCleared (ssidMatching id env w s n)"
  unfolding ssidMatching_def
  by (auto intro!: pc_rules split: option.splits)

lemma pc_commitState: "keeps pauseCleared (commitState a b c d e f)"
  unfolding commitState_def Let_def by (intro pc_setUi) simp

lemma pc_zombieCleanup: "keeps pauseCleared (zombieCleanup id cal)"
  unfolding zombieCleanup_def
  by (intro keeps_andThen keeps_await pc_endSession pc_setUi) simp

lemma pc_decide: "keeps pauseCleared (decide id cal env w t s p sess n)"
  unfolding decide_def Let_def
  by (intro keeps_andThen pc_ssidMatching)
     (auto intro!: pc_rules pc_endSession pc_startSession pc_updateSessionHeartbeat pc_commitState pc_setUi
           split: option.splits prod.splits)

lemma getTargetSSID_seen:
  "hoare (\<lambda>st. faults st = [] \<and> pauseSeen st) (getTargetSSID id)
         (\<lambda>r st. (\<exists>v. r = Inr v) \<and> faults st = [] \<and> pauseSeen st)"
  by (auto simp add: hoare_def getTargetSSID_def monad_defs AS_getItem_def nextFault_none pauseSeen_def
      split: slot.splits)

lemma getRawSSID_seen:
  "hoare (\<lambda>st. faults st = [] \<and> pauseSeen st) (getRawSSID id)
         (\<lambda>r st. (\<exists>v. r = Inr v) \<and> faults st = [] \<and> pauseSeen st)"
  by (auto simp add: hoare_def getRawSSID_def monad_defs AS_getItem_def nextFault_none pauseSeen_def
      split: slot.splits)

lemma getManualPause_seen:
  "hoare (\<lambda>st. faults st = [] \<and> pauseSeen st) (getManualPause id)
         (\<lambda>r st. r = Inr True \<and> faults st = [])"
  by (auto simp add: hoare_def getManualPause_def monad_defs AS_getItem_def nextFault_none pauseSeen_def
      Let_def split: slot.splits)

lemma setManualPause_clears:
  "hoare (\<lambda>st. faults st = [])
         (andThen (await id (setManualPause id False)) (\<lambda>_. ret False))
         (\<lambda>r st. r = Inr False \<and> IS_MANUAL_PAUSED (cache st) = Cached False
                  \<and> item_IS_MANUAL_PAUSED (storage st) = Some ''false'')"
  by (simp add: hoare_def setManualPause_def monad_defs AS_setItem_def nextFault_none)

lemma unpause_triple:
  assumes "\<not> isConnectedToWifi env"
  shows "hoare (\<lambda>st. faults st = [] \<and> pauseSeen st)
               (checkNetworkAndSession id cal env) (\<lambda>r. pauseCleared)"
  unfolding checkNetworkAndSession_def Let_def
  apply (rule hoare_try_catch_keeps)
   apply (rule hoare_andThen [where v = False and R = "\<lambda>st. faults st = [] \<and> pauseSeen st"])
    apply (simp add: hoare_def await_def ret_def assms)
   apply (rule hoare_andThen_any [where R = "\<lambda>st. faults st = [] \<and> pauseSeen st"])
    apply (rule hoare_await, rule getTargetSSID_seen)
   apply (rule hoare_andThen_any [where R = "\<lambda>st. faults st = [] \<and> pauseSeen st"])
    apply (rule hoare_await, rule getRawSSID_seen)
   apply (rule hoare_andThen [where v = True and R = "\<lambda>st. faults st = []"])
    apply (rule hoare_await, rule getManualPause_seen)
   apply (rule hoare_andThen [where v = False
            and R = "\<lambda>st. IS_MANUAL_PAUSED (cache st) = Cached False
                          \<and> item_IS_MANUAL_PAUSED (storage st) = Some ''false''"])
    apply (simp add: setManualPause_clears)
   apply (rule hoare_andThen [where v = "()" and R = pauseCleared])
    apply (simp add: hoare_def setUi_def modify_def pauseCleared_def)
   apply (rule hoare_keeps)
   apply (rule keeps_andThen)
    apply (rule keeps_await, rule pc_getCurrentSession)
   apply (auto intro!: keeps_rules pc_zombieCleanup pc_decide split: option.splits)[1]
  apply (rule keeps_ret)
  done

text \<open>
  Claim C6. For every evaluation in which the device is not on Wi-Fi and the manual-pause
  flag is set as \<^verbatim>\<open>getManualPause\<close> reads it (in the cache, or in the store when the cache slot
  is not yet filled), and no store call fails, the flag is cleared when the evaluation
  returns: the cache holds \<^verbatim>\<open>false\<close>, the store holds \<^verbatim>\<open>"false"\<close>, and the component shows no
  manual stop. This holds whatever the session state, the configuration and the branch the
  evaluation takes afterwards.
\<close>

theorem auto_unpause:
  assumes "\<not> isConnectedToWifi env" "pauseSeen st" "faults st = []"
  shows "IS_MANUAL_PAUSED (cache (snd (checkNetworkAndSession id cal env st))) = Cached False
       \<and> item_IS_MANUAL_PAUSED (storage (snd (checkNetworkAndSession id cal env st))) = Some ''false''
       \<and> \<not> ui_isManualStop (ui (snd (checkNetworkAndSession id cal env st)))"
  using unpause_triple [OF assms(1), of cal] assms(2,3)
  by (simp add: hoare_def pauseCleared_def)

theorem auto_unpause_witness:
  "\<not> isConnectedToWifi onCellular
   \<and> item_IS_MANUAL_PAUSED (storage (stateWithStorage configuredStorage)) = Some ''true''
   \<and> IS_MANUAL_PAUSED (cache (snd (checkNetworkAndSession id (localCalendar 0) onCellular
         (stateWithStorage configuredStorage)))) = Cached False
   \<and> item_IS_MANUAL_PAUSED (storage (snd (checkNetworkAndSession id (localCalendar 0) onCellular
         (stateWithStorage configuredStorage)))) = Some ''false''"
proof -
  have w: "\<not> isConnectedToWifi onCellular"
    by (simp add: isConnectedToWifi_def onCellular_def)
  have p: "pauseSeen (stateWithStorage configuredStorage)"
    by (simp add: pauseSeen_def stateWithStorage_def configuredStorage_def initialState_def
        initialCache_def emptyStorage_def)
  have f: "faults (stateWithStorage configuredStorage) = []"
    by (simp add: stateWithStorage_def initialState_def)
  have i: "item_IS_MANUAL_PAUSED (storage (stateWithStorage configuredStorage)) = Some ''true''"
    by (simp add: stateWithStorage_def configuredStorage_def emptyStorage_def initialState_def)
  show ?thesis
    using w i auto_unpause [OF w p f, of "localCalendar 0"] by simp
qed

section \<open>Zombie sessions\<close>

lemma endSession_clears:
  assumes "\<not> isEnding st" "faults st = []" "wellFormed st" "liveSession st = Some s"
  shows "fst (endSession id cal st) = Inr ()
       \<and> CURRENT_SESSION (cache (snd (endSession id cal st))) = Cached None
       \<and> item_CURRENT_SESSION (storage (snd (endSession id cal st))) = None
       \<and> \<not> isEnding (snd (endSession id cal st))
       \<and> ui (snd (endSession id cal st)) = ui st"
proof -
  from endSession_resolved[OF assms(1-4)] obtain st' where
      r: "resolveSession id (st\<lparr>isEnding := True\<rparr>) =
            (Inr (Some (s, \<exists>c. CURRENT_SESSION (cache st) = Cached (Some c))), st')"
    and fr: "cache st' = cache st" "storage st' = storage st" "clock st' = clock st" "faults st' = []"
      "ui st' = ui st"
    by blast
  show ?thesis
    using assms(1,3) fr
    by (simp add: endSession_unguarded endSession_try_def endSession_split_def endSession_single_def
        r monad_defs addToHistory_seq addSessionDetail_seq AS_removeItem_def nextFault_none
        wellFormed_def Let_def)
qed

lemma endSession_documents:
  assumes "\<not> isEnding a" "faults a = []" "wellFormed a" "liveSession a = Some s"
    and "\<not> isEnding b" "faults b = []" "wellFormed b" "liveSession b = Some s"
    and "clock a = clock b" "item_HISTORY (storage a) = item_HISTORY (storage b)"
    and "item_SESSIONS (storage a) = item_SESSIONS (storage b)"
  shows "item_HISTORY (storage (snd (endSession id cal a))) = item_HISTORY (storage (snd (endSession id cal b)))
       \<and> item_SESSIONS (storage (snd (endSession id cal a))) = item_SESSIONS (storage (snd (endSession id cal b)))"
proof -
  from endSession_resolved[OF assms(1-4)] obtain a' where
      ra: "resolveSession id (a\<lparr>isEnding := True\<rparr>) =
            (Inr (Some (s, \<exists>c. CURRENT_SESSION (cache a) = Cached (Some c))), a')"
    and fa: "storage a' = storage a" "clock a' = clock a" "faults a' = []"
    by blast
  from endSession_resolved[OF assms(5-8)] obtain b' where
      rb: "resolveSession id (b\<lparr>isEnding := True\<rparr>) =
            (Inr (Some (s, \<exists>c. CURRENT_SESSION (cache b) = Cached (Some c))), b')"
    and fb: "storage b' = storage b" "clock b' = clock b" "faults b' = []"
    by blast
  show ?thesis
    using assms(1,3,5,7,9,10,11) fa fb
    by (simp add: endSession_unguarded endSession_try_def endSession_split_def endSession_single_def
        ra rb monad_defs addToHistory_seq addSessionDetail_seq AS_removeItem_def nextFault_none
        wellFormed_def historyDoc_def sessionsDoc_def Let_def)
qed

lemma frame_wifi:
  "hoare (sessionFrame st0 c) (await id (ret x)) (\<lambda>r st. (\<exists>v. r = Inr v) \<and> sessionFrame st0 c st)"
  by (simp add: hoare_def await_def ret_def)

lemma frame_getTargetSSID:
  "hoare (sessionFrame st0 c) (getTargetSSID id) (\<lambda>r st. (\<exists>v. r = Inr v) \<and> sessionFrame st0 c st)"
  by (auto simp add: hoare_def getTargetSSID_def monad_defs AS_getItem_def nextFault_none
      sessionFrame_def split: slot.splits)

lemma frame_getRawSSID:
  "hoare (sessionFrame st0 c) (getRawSSID id) (\<lambda>r st. (\<exists>v. r = Inr v) \<and> sessionFrame st0 c st)"
  by (auto simp add: hoare_def getRawSSID_def monad_defs AS_getItem_def nextFault_none
      sessionFrame_def split: slot.splits)

lemma frame_getManualPause:
  "hoare (sessionFrame st0 c) (getManualPause id) (\<lambda>r st. (\<exists>v. r = Inr v) \<and> sessionFrame st0 c st)"
  by (auto simp add: hoare_def getManualPause_def monad_defs AS_getItem_def nextFault_none
      sessionFrame_def Let_def split: slot.splits)

lemma frame_unpause:
  "hoare (sessionFrame st0 c)
         (if w then andThen (await id (setManualPause id False)) (\<lambda>_. ret False) else ret p)
         (\<lambda>r st. (\<exists>v. r = Inr v) \<and> sessionFrame st0 c st)"
  by (auto simp add: hoare_def setManualPause_def monad_defs AS_setItem_def nextFault_none
      sessionFrame_def)

lemma frame_setUi:
  "hoare (sessionFrame st0 c) (setUi f) (\<lambda>r st. r = Inr () \<and> sessionFrame st0 c st)"
  by (simp add: hoare_def setUi_def modify_def sessionFrame_def)

lemma frame_getCurrentSession:
  assumes "visibleSession st0 = Some s"
  shows "hoare (sessionFrame st0 (CURRENT_SESSION (cache st0))) (getCurrentSession id)
           (\<lambda>r st. r = Inr (Some s) \<and> sessionFrame st0 (Cached (Some s)) st)"
  using assms
  by (auto simp add: hoare_def getCurrentSession_def monad_defs AS_getItem_def nextFault_none
      sessionFrame_def visibleSession_def JSON_parse_def
      split: slot.splits option.splits jsontext.splits)

lemma frame_zombie:
  assumes "\<not> isEnding st0" "faults st0 = []" "wellFormed st0" "visibleSession st0 = Some s"
  shows "hoare (sessionFrame st0 (Cached (Some s))) (zombieCleanup id cal) (\<lambda>r. zombieEnded cal st0)"
  unfolding hoare_def
proof (intro allI impI)
  fix st :: state
  assume a: "sessionFrame st0 (Cached (Some s)) st"
  have l0: "liveSession st0 = Some s"
    using assms(4)
    by (auto simp add: visibleSession_def liveSession_def split: slot.splits option.splits jsontext.splits)
  have p: "\<not> isEnding st" "faults st = []" "wellFormed st" "liveSession st = Some s"
    using a assms(3) by (simp_all add: sessionFrame_def wellFormed_def liveSession_def)
  have q: "clock st = clock st0" "item_HISTORY (storage st) = item_HISTORY (storage st0)"
    "item_SESSIONS (storage st) = item_SESSIONS (storage st0)"
    using a by (simp_all add: sessionFrame_def)
  note c = endSession_clears [OF p, of cal]
  note d = endSession_documents [OF p assms(1,2,3) l0 q, of cal]
  obtain r st' where e: "endSession id cal st = (r, st')" by (cases "endSession id cal st")
  show "zombieEnded cal st0 (snd (zombieCleanup id cal st))"
    using c d e
    by (simp add: zombieCleanup_def monad_defs zombieEnded_def)
qed

lemma frame_stale:
  assumes "\<not> isEnding st0" "faults st0 = []" "wellFormed st0" "visibleSession st0 = Some s"
    and "20 * 60 * 1000 < clock st0 - lastActive s"
  shows "hoare (sessionFrame st0 (Cached (Some s)))
           (andThen Date_now (\<lambda>now.
              if 20 * 60 * 1000 < now - lastActive s then zombieCleanup id cal else other))
           (\<lambda>r. zombieEnded cal st0)"
  using frame_zombie [OF assms(1-4), of cal] assms(5)
  by (simp add: hoare_def andThen_def Date_now_def sessionFrame_def)

lemma zombie_hoare:
  assumes "\<not> isEnding st0" "faults st0 = []" "wellFormed st0" "visibleSession st0 = Some s"
    and "20 * 60 * 1000 < clock st0 - lastActive s"
  shows "hoare (sessionFrame st0 (CURRENT_SESSION (cache st0)))
           (checkNetworkAndSession id cal env) (\<lambda>r. zombieEnded cal st0)"
  unfolding checkNetworkAndSession_def Let_def
  apply (rule hoare_try_catch_keeps)
   apply (rule hoare_andThen_any [where R = "sessionFrame st0 (CURRENT_SESSION (cache st0))"])
    apply (rule frame_wifi)
   apply (rule hoare_andThen_any [where R = "sessionFrame st0 (CURRENT_SESSION (cache st0))"])
    apply (rule hoare_await, rule frame_getTargetSSID)
   apply (rule hoare_andThen_any [where R = "sessionFrame st0 (CURRENT_SESSION (cache st0))"])
    apply (rule hoare_await, rule frame_getRawSSID)
   apply (rule hoare_andThen_any [where R = "sessionFrame st0 (CURRENT_SESSION (cache st0))"])
    apply (rule hoare_await, rule frame_getManualPause)
   apply (rule hoare_andThen_any [where R = "sessionFrame st0 (CURRENT_SESSION (cache st0))"])
    apply (rule frame_unpause)
   apply (rule hoare_andThen [where v = "()" and R = "sessionFrame st0 (CURRENT_SESSION (cache st0))"])
    apply (rule frame_setUi)
   apply (rule hoare_andThen [where v = "Some s" and R = "sessionFrame st0 (Cached (Some s))"])
    apply (rule hoare_await, rule frame_getCurrentSession [OF assms(4)])
   apply (simp only: option.case)
   apply (rule frame_stale [OF assms])
  apply (rule keeps_ret)
  done

text \<open>
  Claim C4. Take a state where the guard is free, no store call fails and the stored
  documents are well-formed, in which \<^verbatim>\<open>getCurrentSession\<close> finds a live session whose
  \<open>lastActive\<close> is more than 20 minutes before the current time. Then for every network state
  and every stored configuration (so whatever the should-track decision would be), when the
  evaluation returns the session is gone from the cache and from the store, the guard is
  free, the component shows the idle state (duration 0, not connected to the office, label
  \<^verbatim>\<open>Not Connected\<close>), and the History and SessionDetail documents are exactly those that
  \<^verbatim>\<open>endSession\<close> produces from the starting state.
\<close>

theorem zombie_forced_end:
  assumes "\<not> isEnding st" "faults st = []" "wellFormed st" "visibleSession st = Some s"
    and "20 * 60 * 1000 < clock st - lastActive s"
  shows "CURRENT_SESSION (cache (snd (checkNetworkAndSession id cal env st))) = Cached None
       \<and> item_CURRENT_SESSION (storage (snd (checkNetworkAndSession id cal env st))) = None
       \<and> visibleSession (snd (checkNetworkAndSession id cal env st)) = None
       \<and> \<not> isEnding (snd (checkNetworkAndSession id cal env st))
       \<and> ui_sessionDuration (ui (snd (checkNetworkAndSession id cal env st))) = 0
       \<and> \<not> ui_isConnectedToOffice (ui (snd (checkNetworkAndSession id cal env st)))
       \<and> ui_currentSSIDName (ui (snd (checkNetworkAndSession id cal env st))) = Some ''Not Connected''
       \<and> item_HISTORY (storage (snd (checkNetworkAndSession id cal env st)))
           = item_HISTORY (storage (snd (endSession id cal st)))
       \<and> item_SESSIONS (storage (snd (checkNetworkAndSession id cal env st)))
           = item_SESSIONS (storage (snd (endSession id cal st)))"
proof -
  have "sessionFrame st (CURRENT_SESSION (cache st)) st"
    using assms(1,2) by (simp add: sessionFrame_def)
  with zombie_hoare [OF assms, of cal env]
  have "zombieEnded cal st (snd (checkNetworkAndSession id cal env st))"
    by (simp add: hoare_def)
  then show ?thesis
    by (simp add: zombieEnded_def visibleSession_def)
qed

theorem zombie_forced_end_witness:
  "visibleSession (stateWithSession 1704151260000 lateEvening) = Some lateEvening
   \<and> visibleSession (snd (checkNetworkAndSession id (localCalendar 0) androidOffice
        (stateWithSession 1704151260000 lateEvening))) = None
   \<and> item_CURRENT_SESSION (storage (snd (checkNetworkAndSession id (localCalendar 0) androidOffice
        (stateWithSession 1704151260000 lateEvening)))) = None
   \<and> ui_currentSSIDName (ui (snd (checkNetworkAndSession id (localCalendar 0) androidOffice
        (stateWithSession 1704151260000 lateEvening)))) = Some ''Not Connected''"
proof -
  have g: "\<not> isEnding (stateWithSession 1704151260000 lateEvening)"
    by (simp add: stateWithSession_simps)
  have v: "visibleSession (stateWithSession 1704151260000 lateEvening) = Some lateEvening"
    by (simp add: visibleSession_def stateWithSession_def initialState_def initialCache_def)
  have stale: "20 * 60 * 1000 < clock (stateWithSession 1704151260000 lateEvening) - lastActive lateEvening"
    by (simp add: stateWithSession_simps lateEvening_def)
  show ?thesis
    using v zombie_forced_end [OF g stateWithSession_simps(2,3) v stale, of "localCalendar 0" androidOffice]
    by simp
qed

end
